theory Spec2Isabelle
  imports Main "HOL-Library.Product_Lexorder" "HOL-Library.Multiset"
begin

section \<open>Python values\<close>

text \<open>
  The script \<^verbatim>\<open>scripts/fetch_metrics.py\<close> works on the JSON documents of a
  bibliographic API, parsed by Python into \<^verbatim>\<open>None\<close>, \<^verbatim>\<open>bool\<close>, \<^verbatim>\<open>int\<close>,
  \<^verbatim>\<open>float\<close>, \<^verbatim>\<open>str\<close>, \<^verbatim>\<open>list\<close> and \<^verbatim>\<open>dict\<close>. A dict keeps its insertion
  order and is an association list read with \<open>map_of\<close>.

  A Python \<^verbatim>\<open>str\<close> is the list of its Unicode code points; \<open>lit\<close> makes one of an
  ASCII literal. A float is a sign, a mantissa and a binary exponent (\<open>FFin s m e\<close> is
  \<open>(-1)^s * m * 2^e\<close>), an infinity or a NaN.
\<close>

type_synonym pystr = "int list"

definition lit :: "string \<Rightarrow> pystr" where
  "lit s = map of_char s"

datatype pyfloat = FNaN | FInf bool | FFin bool nat int

datatype json =
    JNull
  | JBool bool
  | JInt int
  | JFloat pyfloat
  | JStr pystr
  | JList "json list"
  | JDict "(pystr \<times> json) list"

type_synonym pydict = "(pystr \<times> json) list"

text \<open>The exceptions the modelled functions can raise; \<open>HTTPError\<close> is the fetcher's.\<close>

datatype error =
  AttributeError | TypeError | ValueError | KeyError | IndexError | OverflowError | HTTPError

text \<open>
  What the interpreter decides outside ASCII, about floats and about sorting is a
  parameter of the model, and every theorem with a variable \<open>rt\<close> holds for every value
  of it:
  \<^item> \<^verbatim>\<open>float(x)\<close> (\<open>None\<close> when it raises) and the text \<^verbatim>\<open>str\<close> gives a float;
  \<^item> \<^verbatim>\<open>sorted\<close> with \<^verbatim>\<open>reverse=True\<close> on keys that are not all integers (the
    permutation of the positions, or the exception of the first failing comparison);
  \<^item> the Unicode database, asked on code points from 128 on: which are white space
    (\<^verbatim>\<open>str.strip\<close>, \<^verbatim>\<open>str.split\<close>, \<^verbatim>\<open>\s\<close>), word characters (\<^verbatim>\<open>\w\<close>), decimal
    digits (\<^verbatim>\<open>\d\<close>), printable (\<^verbatim>\<open>repr\<close>) and combining marks, and the upper-case
    form of a character;
  \<^item> on a string that is not ASCII: \<^verbatim>\<open>str.lower\<close> (the form of a sigma depends on
    its neighbours), \<^verbatim>\<open>str.title\<close>, the normal form NFKD, and \<^verbatim>\<open>int\<close> (\<open>None\<close>
    when it raises).
  On ASCII strings all of these are defined here.
\<close>

record py_runtime =
  float_of :: "json \<Rightarrow> pyfloat option"
  float_str :: "pyfloat \<Rightarrow> pystr"
  sort_other :: "json list \<Rightarrow> error + nat list"
  uni_space :: "int \<Rightarrow> bool"
  uni_word :: "int \<Rightarrow> bool"
  uni_digit :: "int \<Rightarrow> bool"
  uni_printable :: "int \<Rightarrow> bool"
  uni_combining :: "int \<Rightarrow> bool"
  uni_upper :: "int \<Rightarrow> pystr"
  uni_lower :: "pystr \<Rightarrow> pystr"
  uni_title :: "pystr \<Rightarrow> pystr"
  uni_nfkd :: "pystr \<Rightarrow> pystr"
  uni_int :: "pystr \<Rightarrow> int option"

definition ebind :: "error + 'a \<Rightarrow> ('a \<Rightarrow> error + 'b) \<Rightarrow> error + 'b" where
  "ebind m f = (case m of Inl e \<Rightarrow> Inl e | Inr x \<Rightarrow> f x)"

fun emap :: "('a \<Rightarrow> error + 'b) \<Rightarrow> 'a list \<Rightarrow> error + 'b list" where
  "emap f [] = Inr []"
| "emap f (x # xs) =
     (case f x of Inl e \<Rightarrow> Inl e
      | Inr y \<Rightarrow> (case emap f xs of Inl e \<Rightarrow> Inl e | Inr ys \<Rightarrow> Inr (y # ys)))"

subsection \<open>Strings\<close>

definition ascii_char :: "int \<Rightarrow> bool" where
  "ascii_char c = (0 \<le> c \<and> c < 128)"

definition ascii :: "pystr \<Rightarrow> bool" where
  "ascii s = list_all ascii_char s"

text \<open>White space for \<^verbatim>\<open>str.strip\<close>, \<^verbatim>\<open>str.split\<close> and \<^verbatim>\<open>\s\<close>: in ASCII the
  characters 9 to 13, 28 to 31 and the blank.\<close>

definition is_space :: "py_runtime \<Rightarrow> int \<Rightarrow> bool" where
  "is_space rt c =
     (if ascii_char c then (9 \<le> c \<and> c \<le> 13) \<or> (28 \<le> c \<and> c \<le> 32) else uni_space rt c)"

definition dec_digit :: "int \<Rightarrow> bool" where
  "dec_digit c = (48 \<le> c \<and> c \<le> 57)"

definition is_upper :: "int \<Rightarrow> bool" where
  "is_upper c = (65 \<le> c \<and> c \<le> 90)"

definition is_lower :: "int \<Rightarrow> bool" where
  "is_lower c = (97 \<le> c \<and> c \<le> 122)"

text \<open>\<^verbatim>\<open>\d\<close> and \<^verbatim>\<open>\w\<close> of a pattern on \<^verbatim>\<open>str\<close>.\<close>

definition is_digit :: "py_runtime \<Rightarrow> int \<Rightarrow> bool" where
  "is_digit rt c = (if ascii_char c then dec_digit c else uni_digit rt c)"

definition is_word :: "py_runtime \<Rightarrow> int \<Rightarrow> bool" where
  "is_word rt c =
     (if ascii_char c then is_upper c \<or> is_lower c \<or> dec_digit c \<or> c = 95
      else uni_word rt c)"

definition to_lower :: "int \<Rightarrow> int" where
  "to_lower c = (if is_upper c then c + 32 else c)"

definition to_upper :: "int \<Rightarrow> int" where
  "to_upper c = (if is_lower c then c - 32 else c)"

definition py_lower :: "py_runtime \<Rightarrow> pystr \<Rightarrow> pystr" where
  "py_lower rt s = (if ascii s then map to_lower s else uni_lower rt s)"

text \<open>\<^verbatim>\<open>str.upper\<close> maps character by character; the upper-case form of a character
  is never empty.\<close>

definition upper_char :: "py_runtime \<Rightarrow> int \<Rightarrow> pystr" where
  "upper_char rt c =
     (if ascii_char c then [to_upper c]
      else (case uni_upper rt c of [] \<Rightarrow> [c] | u # us \<Rightarrow> u # us))"

definition py_upper :: "py_runtime \<Rightarrow> pystr \<Rightarrow> pystr" where
  "py_upper rt s = concat (map (upper_char rt) s)"

definition py_lstrip :: "py_runtime \<Rightarrow> pystr \<Rightarrow> pystr" where
  "py_lstrip rt s = dropWhile (is_space rt) s"

definition py_rstrip :: "py_runtime \<Rightarrow> pystr \<Rightarrow> pystr" where
  "py_rstrip rt s = rev (dropWhile (is_space rt) (rev s))"

definition py_strip :: "py_runtime \<Rightarrow> pystr \<Rightarrow> pystr" where
  "py_strip rt s = py_rstrip rt (py_lstrip rt s)"

definition startswith :: "pystr \<Rightarrow> pystr \<Rightarrow> bool" where
  "startswith s p = (take (length p) s = p)"

text \<open>
  \<^verbatim>\<open>s.replace(old, new)\<close>: every occurrence of \<open>old\<close>, leftmost first and without
  overlap. Every call of the script passes a non-empty \<open>old\<close>.
\<close>

function py_replace :: "pystr \<Rightarrow> pystr \<Rightarrow> pystr \<Rightarrow> pystr" where
  "py_replace old new [] = []"
| "py_replace old new (c # cs) =
     (if old \<noteq> [] \<and> startswith (c # cs) old
      then new @ py_replace old new (drop (length old) (c # cs))
      else c # py_replace old new cs)"
  by pat_completeness auto
termination
  by (relation "measure (\<lambda>(old, new, s). length s)") auto

text \<open>The em dash, U+2014.\<close>

definition em_dash :: pystr where
  "em_dash = [8212]"

subsection \<open>Truthiness, attribute access, conversions\<close>

definition float_truthy :: "pyfloat \<Rightarrow> bool" where
  "float_truthy f = (case f of FFin s m e \<Rightarrow> m \<noteq> 0 | _ \<Rightarrow> True)"

definition truthy :: "json \<Rightarrow> bool" where
  "truthy x =
     (case x of
        JNull \<Rightarrow> False
      | JBool b \<Rightarrow> b
      | JInt i \<Rightarrow> i \<noteq> 0
      | JFloat f \<Rightarrow> float_truthy f
      | JStr s \<Rightarrow> s \<noteq> []
      | JList xs \<Rightarrow> xs \<noteq> []
      | JDict kvs \<Rightarrow> kvs \<noteq> [])"

definition py_or :: "json \<Rightarrow> json \<Rightarrow> json" where
  "py_or x y = (if truthy x then x else y)"

text \<open>\<^verbatim>\<open>d.get(k)\<close> on a dict, and on a value that may not be one.\<close>

definition dget :: "pydict \<Rightarrow> pystr \<Rightarrow> json" where
  "dget d k = (case map_of d k of None \<Rightarrow> JNull | Some v \<Rightarrow> v)"

definition jget :: "json \<Rightarrow> pystr \<Rightarrow> error + json" where
  "jget x k = (case x of JDict d \<Rightarrow> Inr (dget d k) | _ \<Rightarrow> Inl AttributeError)"


text \<open>\<^verbatim>\<open>isinstance(x, int)\<close>: \<^verbatim>\<open>bool\<close> is a subclass of \<^verbatim>\<open>int\<close>.\<close>

definition is_int :: "json \<Rightarrow> bool" where
  "is_int x = (case x of JInt i \<Rightarrow> True | JBool b \<Rightarrow> True | _ \<Rightarrow> False)"

text \<open>\<^verbatim>\<open>int(x)\<close> on a float: truncation towards zero.\<close>

definition int_of_float :: "pyfloat \<Rightarrow> error + int" where
  "int_of_float f =
     (case f of
        FNaN \<Rightarrow> Inl ValueError
      | FInf s \<Rightarrow> Inl OverflowError
      | FFin s m e \<Rightarrow>
          (let mag = (if 0 \<le> e then int m * 2 ^ nat e else int m div 2 ^ nat (- e))
           in Inr (if s then - mag else mag)))"

text \<open>
  \<^verbatim>\<open>int(s)\<close> on an ASCII string: blanks of the C locale (9 to 13 and 32, not 28 to
  31) around an optional sign and decimal digits, single underscores between digits,
  and no more digits than the interpreter's limit on conversions between \<^verbatim>\<open>int\<close> and
  \<^verbatim>\<open>str\<close>, by default 4300. Every failure is a \<^verbatim>\<open>ValueError\<close>.
\<close>

definition int_max_str_digits :: int where
  "int_max_str_digits = 4300"

definition c_space :: "int \<Rightarrow> bool" where
  "c_space c = ((9 \<le> c \<and> c \<le> 13) \<or> c = 32)"

fun digits_ok :: "pystr \<Rightarrow> bool" where
  "digits_ok [] = False"
| "digits_ok [c] = dec_digit c"
| "digits_ok (c # d # cs) =
     (dec_digit c \<and> (if d = 95 then digits_ok cs else digits_ok (d # cs)))"

definition digits_val :: "pystr \<Rightarrow> int" where
  "digits_val ds = foldl (\<lambda>a c. 10 * a + (c - 48)) 0 (filter (\<lambda>c. c \<noteq> 95) ds)"

definition int_of_ascii :: "pystr \<Rightarrow> int option" where
  "int_of_ascii s =
     (case rev (dropWhile c_space (rev (dropWhile c_space s))) of
        [] \<Rightarrow> None
      | c # cs \<Rightarrow>
          (let ds = (if c = 45 \<or> c = 43 then cs else c # cs)
           in if digits_ok ds \<and> int (length (filter dec_digit ds)) \<le> int_max_str_digits
              then Some (if c = 45 then - digits_val ds else digits_val ds)
              else None))"

definition int_of_str :: "py_runtime \<Rightarrow> pystr \<Rightarrow> error + int" where
  "int_of_str rt s =
     (case (if ascii s then int_of_ascii s else uni_int rt s) of
        None \<Rightarrow> Inl ValueError
      | Some i \<Rightarrow> Inr i)"

definition py_int :: "py_runtime \<Rightarrow> json \<Rightarrow> error + int" where
  "py_int rt x =
     (case x of
        JNull \<Rightarrow> Inl TypeError
      | JBool b \<Rightarrow> Inr (if b then 1 else 0)
      | JInt i \<Rightarrow> Inr i
      | JFloat f \<Rightarrow> int_of_float f
      | JStr s \<Rightarrow> int_of_str rt s
      | JList xs \<Rightarrow> Inl TypeError
      | JDict kvs \<Rightarrow> Inl TypeError)"

text \<open>
  \<^verbatim>\<open>repr\<close> and \<^verbatim>\<open>str\<close>, which the f-string of the fuzzy key and
  \<^verbatim>\<open>str(...)\<close> apply to values of any type. The text of an integer of more digits
  than the conversion limit is a \<^verbatim>\<open>ValueError\<close>, also inside a list or a dict.
\<close>

definition hex_digit :: "int \<Rightarrow> int" where
  "hex_digit n = (if n < 10 then 48 + n else 87 + n)"

fun hex_pad :: "nat \<Rightarrow> int \<Rightarrow> pystr" where
  "hex_pad 0 n = []"
| "hex_pad (Suc k) n = hex_pad k (n div 16) @ [hex_digit (n mod 16)]"

definition repr_char :: "py_runtime \<Rightarrow> int \<Rightarrow> int \<Rightarrow> pystr" where
  "repr_char rt q c =
     (if c = 92 then [92, 92]
      else if c = q then [92, q]
      else if c = 9 then lit [CHR 0x5C, CHR ''t'']
      else if c = 10 then lit [CHR 0x5C, CHR ''n'']
      else if c = 13 then lit [CHR 0x5C, CHR ''r'']
      else if 0 \<le> c \<and> c < 32 \<or> c = 127 then lit [CHR 0x5C, CHR ''x''] @ hex_pad 2 c
      else if ascii_char c then [c]
      else if uni_printable rt c then [c]
      else if c < 256 then lit [CHR 0x5C, CHR ''x''] @ hex_pad 2 c
      else if c < 65536 then lit [CHR 0x5C, CHR ''u''] @ hex_pad 4 c
      else lit [CHR 0x5C, CHR ''U''] @ hex_pad 8 c)"

definition repr_str :: "py_runtime \<Rightarrow> pystr \<Rightarrow> pystr" where
  "repr_str rt s =
     (let q = (if 39 \<in> set s \<and> 34 \<notin> set s then 34 else 39)
      in q # concat (map (repr_char rt q) s) @ [q])"

text \<open>The decimal digits of an integer that is not negative.\<close>

function dec_digits :: "int \<Rightarrow> pystr" where
  "dec_digits n = (if n < 10 then [48 + n] else dec_digits (n div 10) @ [48 + n mod 10])"
  by pat_completeness auto
termination
  by (relation "measure nat") auto

definition int_str :: "int \<Rightarrow> pystr" where
  "int_str i = (if i < 0 then 45 # dec_digits (- i) else dec_digits i)"

fun join :: "pystr \<Rightarrow> pystr list \<Rightarrow> pystr" where
  "join sep [] = []"
| "join sep [x] = x"
| "join sep (x # y # ys) = x @ sep @ join sep (y # ys)"

fun py_repr :: "py_runtime \<Rightarrow> json \<Rightarrow> pystr" where
  "py_repr rt JNull = lit ''None''"
| "py_repr rt (JBool b) = (if b then lit ''True'' else lit ''False'')"
| "py_repr rt (JInt i) = int_str i"
| "py_repr rt (JFloat f) = float_str rt f"
| "py_repr rt (JStr s) = repr_str rt s"
| "py_repr rt (JList xs) = lit ''['' @ join (lit '', '') (map (py_repr rt) xs) @ lit '']''"
| "py_repr rt (JDict kvs) =
     lit ''{'' @
     join (lit '', '') (map (\<lambda>kv. repr_str rt (fst kv) @ lit '': '' @ py_repr rt (snd kv)) kvs) @
     lit ''}''"

fun repr_ok :: "json \<Rightarrow> bool" where
  "repr_ok (JInt i) = (int (length (dec_digits \<bar>i\<bar>)) \<le> int_max_str_digits)"
| "repr_ok (JList xs) = list_all repr_ok xs"
| "repr_ok (JDict kvs) = list_all (\<lambda>kv. repr_ok (snd kv)) kvs"
| "repr_ok x = True"

definition py_str :: "py_runtime \<Rightarrow> json \<Rightarrow> error + pystr" where
  "py_str rt x =
     (if \<not> repr_ok x then Inl ValueError
      else (case x of JStr s \<Rightarrow> Inr s | _ \<Rightarrow> Inr (py_repr rt x)))"

section \<open>Identity keys\<close>

text \<open>
  \<^verbatim>\<open>_norm_doi\<close>, \<^verbatim>\<open>_get_doi\<close>, \<^verbatim>\<open>_get_hal_id\<close>, \<^verbatim>\<open>_norm_title\<close> and
  \<^verbatim>\<open>_first_author\<close> of the script, without their leading underscore.
\<close>

definition norm_doi :: "py_runtime \<Rightarrow> pystr \<Rightarrow> pystr option" where
  "norm_doi rt doi =
     (if doi = [] then None
      else
        (let d = py_lower rt (py_strip rt doi);
             d = py_replace (lit ''http://doi.org/'') [] (py_replace (lit ''https://doi.org/'') [] d);
             d = py_replace (lit ''doi:'') [] d
         in if d = [] then None else Some d))"

definition get_doi :: "py_runtime \<Rightarrow> pydict \<Rightarrow> pystr option" where
  "get_doi rt work =
     (case dget work (lit ''doi'') of
        JStr doi \<Rightarrow> norm_doi rt doi
      | _ \<Rightarrow>
          (case py_or (dget work (lit ''ids'')) (JDict []) of
             JDict ids \<Rightarrow> (case dget ids (lit ''doi'') of JStr doi \<Rightarrow> norm_doi rt doi | _ \<Rightarrow> None)
           | _ \<Rightarrow> None))"

text \<open>
  The loop of \<^verbatim>\<open>_get_hal_id\<close> over the locations: \<^verbatim>\<open>loc.get\<close> raises on an entry
  that is not a dict.
\<close>

fun hal_scan :: "json list \<Rightarrow> error + pystr option" where
  "hal_scan [] = Inr None"
| "hal_scan (loc # locs) =
     (case jget loc (lit ''id'') of
        Inl e \<Rightarrow> Inl e
      | Inr loc_id \<Rightarrow>
          (case loc_id of
             JStr s \<Rightarrow> if startswith s (lit ''pmh:oai:HAL:'') then Inr (Some s) else hal_scan locs
           | _ \<Rightarrow> hal_scan locs))"

text \<open>
  \<^verbatim>\<open>for loc in x\<close> where \<open>x\<close> is truthy or the empty list: a string yields its
  characters and a dict its keys, all strings, so that the first \<^verbatim>\<open>loc.get\<close> raises;
  a number is not iterable.
\<close>

definition get_hal_id :: "pydict \<Rightarrow> error + pystr option" where
  "get_hal_id work =
     (case (case py_or (dget work (lit ''locations'')) (JList []) of
              JList locs \<Rightarrow> hal_scan locs
            | JStr s \<Rightarrow> Inl AttributeError
            | JDict kvs \<Rightarrow> Inl AttributeError
            | _ \<Rightarrow> Inl TypeError) of
        Inl e \<Rightarrow> Inl e
      | Inr (Some h) \<Rightarrow> Inr (Some h)
      | Inr None \<Rightarrow>
          (case jget (py_or (dget work (lit ''primary_location'')) (JDict [])) (lit ''id'') of
             Inl e \<Rightarrow> Inl e
           | Inr pl_id \<Rightarrow>
               (case pl_id of
                  JStr s \<Rightarrow> Inr (if startswith s (lit ''pmh:oai:HAL:'') then Some s else None)
                | _ \<Rightarrow> Inr None)))"

text \<open>
  The three substitutions of \<^verbatim>\<open>_norm_title\<close>. In the first pattern,
  \<^verbatim>\<open>^\s*\d+\s*[\.\-:\)]\s*\<close>, the classes are disjoint in every Unicode database, so
  the greedy match is the only one.
\<close>

definition strip_enumerator :: "py_runtime \<Rightarrow> pystr \<Rightarrow> pystr" where
  "strip_enumerator rt t =
     (let a = dropWhile (is_space rt) t
      in if takeWhile (is_digit rt) a = [] then t
         else (case dropWhile (is_space rt) (dropWhile (is_digit rt) a) of
                 [] \<Rightarrow> t
               | p # rest \<Rightarrow>
                   if p \<in> set (lit ''.-:)'') then dropWhile (is_space rt) rest else t))"

function collapse_ws :: "py_runtime \<Rightarrow> pystr \<Rightarrow> pystr" where
  "collapse_ws rt [] = []"
| "collapse_ws rt (c # cs) =
     (if is_space rt c then 32 # collapse_ws rt (dropWhile (is_space rt) cs)
      else c # collapse_ws rt cs)"
  by pat_completeness auto
termination
  by (relation "measure (\<lambda>(rt, s). length s)") (auto simp: length_dropWhile_le less_Suc_eq_le)

definition norm_title :: "py_runtime \<Rightarrow> json \<Rightarrow> error + pystr" where
  "norm_title rt title =
     (if \<not> truthy title then Inr []
      else (case title of
              JStr s \<Rightarrow>
                (let t = py_strip rt (py_lower rt s);
                     t = strip_enumerator rt t;
                     t = collapse_ws rt t;
                     t = filter (\<lambda>c. is_word rt c \<or> is_space rt c) t
                 in Inr (py_strip rt t))
            | _ \<Rightarrow> Inl AttributeError))"

definition first_author :: "py_runtime \<Rightarrow> pydict \<Rightarrow> error + pystr" where
  "first_author rt work =
     (let auths = py_or (dget work (lit ''authorships'')) (JList [])
      in if \<not> truthy auths then Inr []
         else
           (case (case auths of
                    JList xs \<Rightarrow>
                      (case xs of [] \<Rightarrow> Inl IndexError | a # as \<Rightarrow> jget a (lit ''author''))
                  | JStr s \<Rightarrow> Inl AttributeError
                  | JDict kvs \<Rightarrow> Inl KeyError
                  | _ \<Rightarrow> Inl TypeError) of
              Inl e \<Rightarrow> Inl e
            | Inr au \<Rightarrow>
                (case jget (py_or au (JDict [])) (lit ''display_name'') of
                   Inl e \<Rightarrow> Inl e
                 | Inr nm \<Rightarrow>
                     (case py_str rt (py_or nm (JStr [])) of
                        Inl e \<Rightarrow> Inl e
                      | Inr s \<Rightarrow> Inr (py_lower rt (py_strip rt s))))))"

text \<open>
  The key of a record, as the loop of \<^verbatim>\<open>dedupe_works\<close> computes it: the DOI, else the
  HAL identifier, else title, year and first author. The f-string takes its three parts
  from left to right.
\<close>

definition derive_key :: "py_runtime \<Rightarrow> pydict \<Rightarrow> error + (pystr \<times> pystr)" where
  "derive_key rt w =
     (case get_doi rt w of
        Some doi \<Rightarrow> Inr (lit ''doi'', doi)
      | None \<Rightarrow>
          (case get_hal_id w of
             Inl e \<Rightarrow> Inl e
           | Inr (Some hal) \<Rightarrow> Inr (lit ''hal'', hal)
           | Inr None \<Rightarrow>
               (case norm_title rt (py_or (dget w (lit ''title'')) (dget w (lit ''display_name''))) of
                  Inl e \<Rightarrow> Inl e
                | Inr t \<Rightarrow>
                    (case py_str rt (dget w (lit ''publication_year'')) of
                       Inl e \<Rightarrow> Inl e
                     | Inr y \<Rightarrow>
                         (case first_author rt w of
                            Inl e \<Rightarrow> Inl e
                          | Inr fa \<Rightarrow> Inr (lit ''fuzzy'', t @ lit ''|'' @ y @ lit ''|'' @ fa))))))"

section \<open>Deduplication\<close>

text \<open>
  The ranking key of \<^verbatim>\<open>dedupe_works\<close>: whether the record has a DOI, its citation
  count, and 1 unless the source of its best location is a repository. \<^verbatim>\<open>int(...)\<close>
  is not guarded here, and \<^verbatim>\<open>src.get\<close> raises when the source is not a dict.
\<close>

definition score :: "py_runtime \<Rightarrow> pydict \<Rightarrow> error + (int \<times> int \<times> int)" where
  "score rt work =
     (let has_doi = (if get_doi rt work \<noteq> None then 1 else 0 :: int)
      in case py_int rt (py_or (dget work (lit ''cited_by_count'')) (JInt 0)) of
           Inl e \<Rightarrow> Inl e
         | Inr cites \<Rightarrow>
             (let loc = py_or (py_or (dget work (lit ''best_oa_location''))
                                     (dget work (lit ''primary_location'')))
                          (JDict []);
                  src = (case loc of
                           JDict l \<Rightarrow> py_or (dget l (lit ''source'')) (JDict [])
                         | _ \<Rightarrow> JDict [])
              in case jget src (lit ''type'') of
                   Inl e \<Rightarrow> Inl e
                 | Inr ty \<Rightarrow>
                     (case py_str rt (py_or ty (JStr [])) of
                        Inl e \<Rightarrow> Inl e
                      | Inr s \<Rightarrow>
                          (let src_type = py_lower rt s;
                               is_repo = (if src_type = lit ''repository'' then 1 else 0 :: int);
                               publisher_bonus = 1 - is_repo
                           in Inr (has_doi, cites, publisher_bonus)))))"

text \<open>
  \<^verbatim>\<open>sorted(xs, key=..., reverse=True)\<close> on keys of a linear order: CPython reverses
  the list, sorts it stably and reverses it again.
\<close>

definition sorted_desc :: "('k::linorder \<times> 'a) list \<Rightarrow> ('k \<times> 'a) list" where
  "sorted_desc kxs = rev (sort_key fst (rev kxs))"

text \<open>
  The body of the last loop of \<^verbatim>\<open>dedupe_works\<close>: the only member of a group of one,
  else the head of the group sorted by \<open>score\<close>. The keys of all members are computed
  before the sort.
\<close>

definition select_winner :: "py_runtime \<Rightarrow> pydict list \<Rightarrow> error + pydict" where
  "select_winner rt grp =
     (if length grp = 1 then (case grp of [] \<Rightarrow> Inl IndexError | w # ws \<Rightarrow> Inr w)
      else (case emap (score rt) grp of
              Inl e \<Rightarrow> Inl e
            | Inr ks \<Rightarrow>
                (case sorted_desc (zip ks grp) of
                   [] \<Rightarrow> Inl IndexError
                 | kw # kws \<Rightarrow> Inr (snd kw))))"

text \<open>
  \<^verbatim>\<open>buckets.setdefault(key, []).append(w)\<close> on a dict in insertion order: a known
  key keeps its place, a new key goes last.
\<close>

fun setdefault_append :: "'k \<Rightarrow> 'v \<Rightarrow> ('k \<times> 'v list) list \<Rightarrow> ('k \<times> 'v list) list" where
  "setdefault_append k v [] = [(k, [v])]"
| "setdefault_append k v (b # bs) =
     (if fst b = k then (fst b, snd b @ [v]) # bs else b # setdefault_append k v bs)"

fun bucketize ::
  "py_runtime \<Rightarrow> pydict list \<Rightarrow> ((pystr \<times> pystr) \<times> pydict list) list
     \<Rightarrow> error + ((pystr \<times> pystr) \<times> pydict list) list" where
  "bucketize rt [] buckets = Inr buckets"
| "bucketize rt (w # ws) buckets =
     (case derive_key rt w of
        Inl e \<Rightarrow> Inl e
      | Inr k \<Rightarrow> bucketize rt ws (setdefault_append k w buckets))"

definition dedupe_works :: "py_runtime \<Rightarrow> pydict list \<Rightarrow> error + pydict list" where
  "dedupe_works rt works =
     (case bucketize rt works [] of
        Inl e \<Rightarrow> Inl e
      | Inr buckets \<Rightarrow> emap (\<lambda>b. select_winner rt (snd b)) buckets)"

section \<open>Normalisation\<close>

definition safe_int :: "py_runtime \<Rightarrow> json \<Rightarrow> int option" where
  "safe_int rt x = (case py_int rt x of Inl e \<Rightarrow> None | Inr i \<Rightarrow> Some i)"

definition safe_float :: "py_runtime \<Rightarrow> json \<Rightarrow> pyfloat option" where
  "safe_float rt x = float_of rt x"

definition opt_int :: "int option \<Rightarrow> json" where
  "opt_int x = (case x of None \<Rightarrow> JNull | Some i \<Rightarrow> JInt i)"

definition opt_str :: "pystr option \<Rightarrow> json" where
  "opt_str x = (case x of None \<Rightarrow> JNull | Some s \<Rightarrow> JStr s)"

definition opt_float :: "pyfloat option \<Rightarrow> json" where
  "opt_float x = (case x of None \<Rightarrow> JNull | Some f \<Rightarrow> JFloat f)"

text \<open>\<^verbatim>\<open>isinstance(x, str) and x.startswith(p)\<close>.\<close>

definition str_startswith :: "json \<Rightarrow> pystr \<Rightarrow> bool" where
  "str_startswith x p = (case x of JStr s \<Rightarrow> startswith s p | _ \<Rightarrow> False)"

text \<open>\<^verbatim>\<open>isinstance(x, str) and x.strip()\<close>: the stripped text when it is not empty.\<close>

definition nonblank :: "py_runtime \<Rightarrow> json \<Rightarrow> pystr option" where
  "nonblank rt x =
     (case x of
        JStr s \<Rightarrow> if py_strip rt s \<noteq> [] then Some (py_strip rt s) else None
      | _ \<Rightarrow> None)"

definition pick_best_url :: "pydict \<Rightarrow> error + pystr" where
  "pick_best_url work =
     (case jget (py_or (dget work (lit ''ids'')) (JDict [])) (lit ''doi'') of
        Inl e \<Rightarrow> Inl e
      | Inr doi_url \<Rightarrow>
          if str_startswith doi_url (lit ''http'')
          then Inr (case doi_url of JStr s \<Rightarrow> s | _ \<Rightarrow> [])
          else
            (case jget (py_or (dget work (lit ''primary_location'')) (JDict []))
                    (lit ''landing_page_url'') of
               Inl e \<Rightarrow> Inl e
             | Inr landing \<Rightarrow>
                 if str_startswith landing (lit ''http'')
                 then Inr (case landing of JStr s \<Rightarrow> s | _ \<Rightarrow> [])
                 else
                   (case dget work (lit ''id'') of
                      JStr wid \<Rightarrow>
                        if startswith wid (lit ''http'') then Inr wid
                        else Inr (lit ''https://openalex.org/'' @
                                  py_replace (lit ''https://openalex.org/'') [] wid)
                    | _ \<Rightarrow> Inr (lit ''#''))))"

text \<open>The source's display name of a location, for \<^verbatim>\<open>extract_venue\<close>.\<close>

definition source_name :: "pydict \<Rightarrow> pystr \<Rightarrow> error + json" where
  "source_name work field =
     (case jget (py_or (dget work field) (JDict [])) (lit ''source'') of
        Inl e \<Rightarrow> Inl e
      | Inr src \<Rightarrow> jget (py_or src (JDict [])) (lit ''display_name''))"

definition extract_venue :: "py_runtime \<Rightarrow> pydict \<Rightarrow> error + pystr" where
  "extract_venue rt work =
     (case source_name work (lit ''primary_location'') of
        Inl e \<Rightarrow> Inl e
      | Inr nm \<Rightarrow>
          (case nonblank rt nm of
             Some s \<Rightarrow> Inr s
           | None \<Rightarrow>
               (case source_name work (lit ''best_oa_location'') of
                  Inl e \<Rightarrow> Inl e
                | Inr nm2 \<Rightarrow>
                    (case nonblank rt nm2 of Some s \<Rightarrow> Inr s | None \<Rightarrow> Inr em_dash))))"

text \<open>
  \<^verbatim>\<open>_HAL_RE.search(u)\<close> for \<^verbatim>\<open>\bhal\.science\b|\bhal\.\w+\b\<close>, ignoring case: what
  the first alternative matches the second matches too, and the second matches where
  \<^verbatim>\<open>hal.\<close> starts a word and a word character follows. No character outside ASCII
  matches one of the letters h, a and l when case is ignored. \<open>prev\<close> tells whether the
  character before is a word character.
\<close>

fun hal_search_from :: "py_runtime \<Rightarrow> bool \<Rightarrow> pystr \<Rightarrow> bool" where
  "hal_search_from rt prev [] = False"
| "hal_search_from rt prev (c # cs) =
     ((\<not> prev \<and> map to_lower (take 4 (c # cs)) = lit ''hal.'' \<and>
        (case drop 4 (c # cs) of [] \<Rightarrow> False | d # ds \<Rightarrow> is_word rt d))
      \<or> hal_search_from rt (is_word rt c) cs)"

definition hal_search :: "py_runtime \<Rightarrow> pystr \<Rightarrow> bool" where
  "hal_search rt u = hal_search_from rt False u"

text \<open>The values of the given keys that are strings, in order: one loop of
  \<^verbatim>\<open>try_find_hal_url\<close>.\<close>

definition str_fields :: "json \<Rightarrow> pystr list \<Rightarrow> error + pystr list" where
  "str_fields x ks =
     (case emap (jget x) ks of
        Inl e \<Rightarrow> Inl e
      | Inr vs \<Rightarrow> Inr (concat (map (\<lambda>v. case v of JStr s \<Rightarrow> [s] | _ \<Rightarrow> []) vs)))"

definition try_find_hal_url :: "py_runtime \<Rightarrow> pydict \<Rightarrow> error + pystr option" where
  "try_find_hal_url rt work =
     (case str_fields (py_or (dget work (lit ''ids'')) (JDict []))
             [lit ''openalex'', lit ''doi'', lit ''pmid'', lit ''pmcid'', lit ''mag''] of
        Inl e \<Rightarrow> Inl e
      | Inr c1 \<Rightarrow>
          (case str_fields (py_or (dget work (lit ''primary_location'')) (JDict []))
                  [lit ''landing_page_url'', lit ''pdf_url''] of
             Inl e \<Rightarrow> Inl e
           | Inr c2 \<Rightarrow>
               (case str_fields (py_or (dget work (lit ''host_venue'')) (JDict [])) [lit ''url''] of
                  Inl e \<Rightarrow> Inl e
                | Inr c3 \<Rightarrow> Inr (find (\<lambda>u. u \<noteq> [] \<and> hal_search rt u) (c1 @ c2 @ c3)))))"

definition extract_oa_status :: "py_runtime \<Rightarrow> pydict \<Rightarrow> error + pystr" where
  "extract_oa_status rt work =
     (case jget (py_or (dget work (lit ''open_access'')) (JDict [])) (lit ''oa_status'') of
        Inl e \<Rightarrow> Inl e
      | Inr s \<Rightarrow>
          (case nonblank rt s of Some t \<Rightarrow> Inr (py_lower rt t) | None \<Rightarrow> Inr (lit ''unknown'')))"

definition extract_is_oa :: "pydict \<Rightarrow> error + bool" where
  "extract_is_oa work =
     (case jget (py_or (dget work (lit ''open_access'')) (JDict [])) (lit ''is_oa'') of
        Inl e \<Rightarrow> Inl e
      | Inr v \<Rightarrow> (case v of JBool b \<Rightarrow> Inr b | _ \<Rightarrow> Inr False))"

text \<open>
  \<^verbatim>\<open>sorted(items, key=..., reverse=True)\<close> on keys of any type. The sort makes no
  comparison on fewer than two items; integer keys (\<^verbatim>\<open>bool\<close> included) are compared as
  integers; any other list of keys goes to the interpreter.
\<close>

definition int_key :: "json \<Rightarrow> int option" where
  "int_key x = (case x of JInt i \<Rightarrow> Some i | JBool b \<Rightarrow> Some (if b then 1 else 0) | _ \<Rightarrow> None)"

definition apply_perm :: "nat list \<Rightarrow> 'a list \<Rightarrow> 'a list" where
  "apply_perm perm items = map (\<lambda>i. items ! i) (filter (\<lambda>i. i < length items) perm)"

definition py_sorted_desc :: "py_runtime \<Rightarrow> json list \<Rightarrow> 'a list \<Rightarrow> error + 'a list" where
  "py_sorted_desc rt keys items =
     (if length items \<le> 1 then Inr items
      else (case those (map int_key keys) of
              Some ns \<Rightarrow> Inr (map snd (sorted_desc (zip ns items)))
            | None \<Rightarrow>
                (case sort_other rt keys of
                   Inl e \<Rightarrow> Inl e
                 | Inr perm \<Rightarrow> Inr (apply_perm perm items))))"

text \<open>\<^verbatim>\<open>x.get("score", 0)\<close>, the sort key of \<^verbatim>\<open>extract_topics\<close> and
  \<^verbatim>\<open>extract_keywords\<close>.\<close>

definition score_key :: "json \<Rightarrow> error + json" where
  "score_key x =
     (case x of
        JDict d \<Rightarrow> Inr (case map_of d (lit ''score'') of None \<Rightarrow> JInt 0 | Some v \<Rightarrow> v)
      | _ \<Rightarrow> Inl AttributeError)"

text \<open>The common body of \<^verbatim>\<open>extract_topics\<close> and \<^verbatim>\<open>extract_keywords\<close>.\<close>

definition ranked_names :: "py_runtime \<Rightarrow> json \<Rightarrow> nat \<Rightarrow> error + pystr list" where
  "ranked_names rt xs top_k =
     (case xs of
        JList ts \<Rightarrow>
          (case emap score_key ts of
             Inl e \<Rightarrow> Inl e
           | Inr keys \<Rightarrow>
               (case py_sorted_desc rt keys ts of
                  Inl e \<Rightarrow> Inl e
                | Inr ranked \<Rightarrow>
                    (case emap (\<lambda>t. jget (py_or t (JDict [])) (lit ''display_name''))
                            (take top_k ranked) of
                       Inl e \<Rightarrow> Inl e
                     | Inr names \<Rightarrow>
                         Inr (concat (map (\<lambda>n. case nonblank rt n of Some s \<Rightarrow> [s] | None \<Rightarrow> [])
                                        names)))))
      | _ \<Rightarrow> Inr [])"

definition extract_topics :: "py_runtime \<Rightarrow> pydict \<Rightarrow> nat \<Rightarrow> error + pystr list" where
  "extract_topics rt work top_k =
     ranked_names rt (py_or (dget work (lit ''topics'')) (JList [])) top_k"

definition extract_keywords :: "py_runtime \<Rightarrow> pydict \<Rightarrow> nat \<Rightarrow> error + pystr list" where
  "extract_keywords rt work top_k =
     ranked_names rt (py_or (dget work (lit ''keywords'')) (JList [])) top_k"

text \<open>
  \<^verbatim>\<open>normalize_person_name\<close>: the normal form NFKD without its combining marks, the
  words joined by one blank, in title case. An ASCII name is its own normal form and has
  no combining marks.
\<close>

definition py_nfkd :: "py_runtime \<Rightarrow> pystr \<Rightarrow> pystr" where
  "py_nfkd rt s = (if ascii s then s else uni_nfkd rt s)"

definition combining :: "py_runtime \<Rightarrow> int \<Rightarrow> bool" where
  "combining rt c = (\<not> ascii_char c \<and> uni_combining rt c)"

fun split_words :: "py_runtime \<Rightarrow> pystr \<Rightarrow> pystr \<Rightarrow> pystr list" where
  "split_words rt cur [] = (if cur = [] then [] else [rev cur])"
| "split_words rt cur (c # cs) =
     (if is_space rt c
      then (if cur = [] then split_words rt [] cs else rev cur # split_words rt [] cs)
      else split_words rt (c # cur) cs)"

definition py_split :: "py_runtime \<Rightarrow> pystr \<Rightarrow> pystr list" where
  "py_split rt s = split_words rt [] s"

fun title_from :: "bool \<Rightarrow> pystr \<Rightarrow> pystr" where
  "title_from prev [] = []"
| "title_from prev (c # cs) =
     (if prev then to_lower c else to_upper c) # title_from (is_upper c \<or> is_lower c) cs"

definition py_title :: "py_runtime \<Rightarrow> pystr \<Rightarrow> pystr" where
  "py_title rt s = (if ascii s then title_from False s else uni_title rt s)"

definition normalize_person_name :: "py_runtime \<Rightarrow> pystr \<Rightarrow> pystr" where
  "normalize_person_name rt name =
     (if name = [] then []
      else py_title rt
             (join (lit '' '')
                (py_split rt (filter (\<lambda>c. \<not> combining rt c) (py_nfkd rt name)))))"

fun coauthor_loop :: "py_runtime \<Rightarrow> pystr \<Rightarrow> json list \<Rightarrow> error + pystr list" where
  "coauthor_loop rt self_author_id [] = Inr []"
| "coauthor_loop rt self_author_id (a # as) =
     (case jget (py_or a (JDict [])) (lit ''author'') of
        Inl e \<Rightarrow> Inl e
      | Inr au0 \<Rightarrow>
          (let au = py_or au0 (JDict []) in
           case jget au (lit ''id'') of
             Inl e \<Rightarrow> Inl e
           | Inr aid \<Rightarrow>
               (case jget au (lit ''display_name'') of
                  Inl e \<Rightarrow> Inl e
                | Inr raw_name \<Rightarrow>
                    (case coauthor_loop rt self_author_id as of
                       Inl e \<Rightarrow> Inl e
                     | Inr names \<Rightarrow>
                         if (case aid of
                               JStr s \<Rightarrow>
                                 py_replace (lit ''https://openalex.org/'') [] s = self_author_id
                             | _ \<Rightarrow> False)
                         then Inr names
                         else (case raw_name of
                                 JStr s \<Rightarrow>
                                   if py_strip rt s \<noteq> []
                                   then Inr (normalize_person_name rt s # names)
                                   else Inr names
                               | _ \<Rightarrow> Inr names)))))"

definition extract_coauthors :: "py_runtime \<Rightarrow> pydict \<Rightarrow> pystr \<Rightarrow> error + pystr list" where
  "extract_coauthors rt work self_author_id =
     (case py_or (dget work (lit ''authorships'')) (JList []) of
        JList auths \<Rightarrow> coauthor_loop rt self_author_id auths
      | _ \<Rightarrow> Inr [])"

text \<open>The first lines of \<^verbatim>\<open>normalize_work\<close>: \<^verbatim>\<open>.strip()\<close> raises on a truthy
  field that is not a string.\<close>

definition title_of :: "py_runtime \<Rightarrow> pydict \<Rightarrow> error + pystr" where
  "title_of rt work =
     (case py_or (dget work (lit ''title'')) (JStr []) of
        JStr s \<Rightarrow> Inr (if py_strip rt s = [] then lit ''Untitled'' else py_strip rt s)
      | _ \<Rightarrow> Inl AttributeError)"

definition doi_of :: "py_runtime \<Rightarrow> pydict \<Rightarrow> error + json" where
  "doi_of rt work =
     (case (if truthy (dget work (lit ''doi'')) then Inr (dget work (lit ''doi''))
            else jget (py_or (dget work (lit ''ids'')) (JDict [])) (lit ''doi'')) of
        Inl e \<Rightarrow> Inl e
      | Inr doi \<Rightarrow>
          (case doi of
             JStr s \<Rightarrow> Inr (JStr (py_replace (lit ''https://doi.org/'') [] (py_strip rt s)))
           | _ \<Rightarrow> Inr JNull))"

definition type_of :: "py_runtime \<Rightarrow> pydict \<Rightarrow> error + pystr" where
  "type_of rt work =
     (case py_or (py_or (dget work (lit ''type'')) (dget work (lit ''type_crossref''))) (JStr []) of
        JStr s \<Rightarrow> Inr (if py_strip rt s = [] then em_dash else py_strip rt s)
      | _ \<Rightarrow> Inl AttributeError)"

definition normalize_work :: "py_runtime \<Rightarrow> pydict \<Rightarrow> pystr \<Rightarrow> error + pydict" where
  "normalize_work rt work self_author_id =
     ebind (title_of rt work) (\<lambda>title.
     let year = safe_int rt (dget work (lit ''publication_year''));
         cites = (case safe_int rt (dget work (lit ''cited_by_count'')) of None \<Rightarrow> 0 | Some n \<Rightarrow> n)
     in
     ebind (doi_of rt work) (\<lambda>doi.
     let openalex_id =
           (case dget work (lit ''id'') of
              JStr s \<Rightarrow> JStr (py_replace (lit ''https://openalex.org/'') [] s)
            | _ \<Rightarrow> JNull)
     in
     ebind (extract_venue rt work) (\<lambda>venue.
     ebind (pick_best_url work) (\<lambda>url.
     ebind (try_find_hal_url rt work) (\<lambda>hal_url.
     ebind (type_of rt work) (\<lambda>ty.
     ebind (extract_is_oa work) (\<lambda>is_oa.
     ebind (extract_oa_status rt work) (\<lambda>oa_status.
     let fwci = safe_float rt (dget work (lit ''fwci'')) in
     ebind (jget (py_or (dget work (lit ''citation_normalized_percentile'')) (JDict []))
              (lit ''value'')) (\<lambda>pct.
     ebind (extract_topics rt work 3) (\<lambda>topics.
     ebind (extract_keywords rt work 10) (\<lambda>keywords.
     ebind (extract_coauthors rt work self_author_id) (\<lambda>coauthors.
       Inr [(lit ''id'', openalex_id),
            (lit ''title'', JStr title),
            (lit ''year'', opt_int year),
            (lit ''venue'', JStr venue),
            (lit ''citations'', JInt cites),
            (lit ''doi'', doi),
            (lit ''url'', JStr url),
            (lit ''hal_url'', opt_str hal_url),
            (lit ''type'', JStr ty),
            (lit ''is_oa'', JBool is_oa),
            (lit ''oa_status'', JStr oa_status),
            (lit ''fwci'', opt_float fwci),
            (lit ''citation_norm_percentile'', pct),
            (lit ''topics'', JList (map JStr topics)),
            (lit ''keywords'', JList (map JStr keywords)),
            (lit ''coauthors'', JList (map JStr coauthors)),
            (lit ''source'', JStr (lit ''OpenAlex''))]))))))))))))"

section \<open>Aggregation and the report\<close>

text \<open>
  The dict \<^verbatim>\<open>by_year\<close> of \<^verbatim>\<open>build_citations_by_year\<close>, in insertion order. Its keys
  are the years that pass \<^verbatim>\<open>isinstance(y, int)\<close>; Python takes \<^verbatim>\<open>True\<close> and
  \<^verbatim>\<open>1\<close> for the same key and keeps the one stored first.
\<close>

definition int_val :: "json \<Rightarrow> int" where
  "int_val x = (case x of JInt i \<Rightarrow> i | JBool b \<Rightarrow> (if b then 1 else 0) | _ \<Rightarrow> 0)"

fun by_year_add :: "json \<Rightarrow> int \<Rightarrow> (json \<times> int) list \<Rightarrow> (json \<times> int) list" where
  "by_year_add y c [] = [(y, 0 + c)]"
| "by_year_add y c (e # es) =
     (if int_val (fst e) = int_val y then (fst e, snd e + c) # es else e # by_year_add y c es)"

fun by_year_loop ::
  "py_runtime \<Rightarrow> pydict list \<Rightarrow> (json \<times> int) list \<Rightarrow> error + (json \<times> int) list" where
  "by_year_loop rt [] by_year = Inr by_year"
| "by_year_loop rt (p # ps) by_year =
     (let y = dget p (lit ''year'');
          c = py_or (dget p (lit ''citations'')) (JInt 0)
      in if is_int y
         then (case py_int rt c of
                 Inl e \<Rightarrow> Inl e
               | Inr n \<Rightarrow> by_year_loop rt ps (by_year_add y n by_year))
         else by_year_loop rt ps by_year)"

definition build_citations_by_year :: "py_runtime \<Rightarrow> pydict list \<Rightarrow> error + pydict list" where
  "build_citations_by_year rt papers =
     (case by_year_loop rt papers [] of
        Inl e \<Rightarrow> Inl e
      | Inr by_year \<Rightarrow>
          Inr (map (\<lambda>e. [(lit ''year'', fst e), (lit ''citations'', JInt (snd e))])
                 (sort_key (\<lambda>e. int_val (fst e)) by_year)))"

text \<open>\<^verbatim>\<open>sum(int(p.get("citations") or 0) for p in papers)\<close> of \<^verbatim>\<open>main\<close>.\<close>

definition total_citations :: "py_runtime \<Rightarrow> pydict list \<Rightarrow> error + int" where
  "total_citations rt papers =
     (case emap (\<lambda>p. py_int rt (py_or (dget p (lit ''citations'')) (JInt 0))) papers of
        Inl e \<Rightarrow> Inl e
      | Inr cs \<Rightarrow> Inr (sum_list cs))"

text \<open>
  The sort of \<^verbatim>\<open>main\<close>, with the key \<^verbatim>\<open>(p.get("year") or 0, p.get("citations") or 0)\<close>
  and \<^verbatim>\<open>reverse=True\<close>. Pairs of integers are compared as such; a pair goes to the
  interpreter as a list of two, which Python compares in the same way.
\<close>

definition paper_sort_key :: "pydict \<Rightarrow> json \<times> json" where
  "paper_sort_key p =
     (py_or (dget p (lit ''year'')) (JInt 0), py_or (dget p (lit ''citations'')) (JInt 0))"

definition int_pair_key :: "json \<times> json \<Rightarrow> (int \<times> int) option" where
  "int_pair_key k =
     (case int_key (fst k) of
        None \<Rightarrow> None
      | Some a \<Rightarrow> (case int_key (snd k) of None \<Rightarrow> None | Some b \<Rightarrow> Some (a, b)))"

definition sort_papers :: "py_runtime \<Rightarrow> pydict list \<Rightarrow> error + pydict list" where
  "sort_papers rt papers =
     (if length papers \<le> 1 then Inr papers
      else (case those (map (\<lambda>p. int_pair_key (paper_sort_key p)) papers) of
              Some ns \<Rightarrow> Inr (map snd (sorted_desc (zip ns papers)))
            | None \<Rightarrow>
                (case sort_other rt
                        (map (\<lambda>p. JList [fst (paper_sort_key p), snd (paper_sort_key p)]) papers) of
                   Inl e \<Rightarrow> Inl e
                 | Inr perm \<Rightarrow> Inr (apply_perm perm papers))))"

section \<open>The entry point\<close>

definition normalize_author_id :: "py_runtime \<Rightarrow> pystr option \<Rightarrow> error + pystr" where
  "normalize_author_id rt raw =
     (let r = py_strip rt (case raw of None \<Rightarrow> [] | Some s \<Rightarrow> s);
          r = py_strip rt (py_replace (lit ''https://openalex.org/'') [] r);
          r = py_upper rt r
      in if r = [] then Inl ValueError
         else if startswith r (lit ''A'') then Inr r
         else if \<not> startswith r (lit ''A'') \<and> \<not> startswith r (lit ''A'')
           then Inr (lit ''A'' @ dropWhile (\<lambda>c. c = 65) r)
         else Inr r)"

text \<open>
  \<^verbatim>\<open>main\<close>. Its inputs are the environment variable \<^verbatim>\<open>OPENALEX_AUTHOR_ID\<close>
  (\<open>None\<close> when unset), the fetcher \<^verbatim>\<open>fetch_all_works_for_author\<close> and the clock; its
  result is the report it writes to \<^verbatim>\<open>data/metrics.json\<close> as its last step, or the
  exception that ends the run before that. \<open>build_report\<close> is the part of \<^verbatim>\<open>main\<close>
  between the fetch and the write.
\<close>

definition build_report :: "py_runtime \<Rightarrow> pystr \<Rightarrow> pydict list \<Rightarrow> pystr \<Rightarrow> error + pydict" where
  "build_report rt author_id works now =
     ebind (dedupe_works rt works) (\<lambda>works.
     ebind (emap (\<lambda>w. normalize_work rt w author_id) works) (\<lambda>papers.
     ebind (sort_papers rt papers) (\<lambda>papers.
     ebind (total_citations rt papers) (\<lambda>total.
     ebind (build_citations_by_year rt papers) (\<lambda>citations_by_year.
       Inr [(lit ''updated_at'', JStr now),
            (lit ''author_openalex_id'', JStr author_id),
            (lit ''papers_tracked'', JInt (int (length papers))),
            (lit ''total_citations'', JInt total),
            (lit ''citations_by_year'', JList (map JDict citations_by_year)),
            (lit ''works'', JList (map JDict papers))])))))"

definition main ::
  "py_runtime \<Rightarrow> pystr option \<Rightarrow> (pystr \<Rightarrow> error + pydict list) \<Rightarrow> pystr \<Rightarrow> error + pydict" where
  "main rt env fetch_all_works_for_author now =
     (let raw_author_id = (case env of None \<Rightarrow> lit ''A5042578790'' | Some v \<Rightarrow> v) in
      ebind (normalize_author_id rt (Some raw_author_id)) (\<lambda>author_id.
      ebind (fetch_all_works_for_author author_id) (\<lambda>works.
        build_report rt author_id works now)))"

section \<open>Notions used in the statements\<close>

text \<open>The keys of a list in the order of their first occurrence.\<close>

definition first_occurrences :: "'a list \<Rightarrow> 'a list" where
  "first_occurrences ks = rev (remdups (rev ks))"

text \<open>The groups of a list of pairs of a key and a value, in the order of the keys' first
  occurrence, each in the order of the list.\<close>

definition groups_of :: "('k \<times> 'v) list \<Rightarrow> ('k \<times> 'v list) list" where
  "groups_of kws =
     map (\<lambda>k. (k, map snd (filter (\<lambda>p. fst p = k) kws))) (first_occurrences (map fst kws))"

text \<open>The records of \<open>ws\<close> with the identity key \<open>k\<close>, in input order.\<close>

definition key_group :: "py_runtime \<Rightarrow> pystr \<times> pystr \<Rightarrow> pydict list \<Rightarrow> pydict list" where
  "key_group rt k ws = filter (\<lambda>w. derive_key rt w = Inr k) ws"

text \<open>The source that the ranking looks at: that of the best open-access location, else
  of the primary location, else none.\<close>

definition ranking_source :: "pydict \<Rightarrow> json" where
  "ranking_source w =
     (case py_or (py_or (dget w (lit ''best_oa_location'')) (dget w (lit ''primary_location'')))
             (JDict []) of
        JDict l \<Rightarrow> py_or (dget l (lit ''source'')) (JDict [])
      | _ \<Rightarrow> JDict [])"

text \<open>A record with a DOI, a citation count and a source type, as the examples of the
  ranking need them.\<close>

definition ranked_record :: "string \<Rightarrow> string \<Rightarrow> int \<Rightarrow> string \<Rightarrow> pydict" where
  "ranked_record title doi cites source_type =
     [(lit ''title'', JStr (lit title)),
      (lit ''doi'', JStr (lit doi)),
      (lit ''cited_by_count'', JInt cites),
      (lit ''primary_location'', JDict [(lit ''source'', JDict [(lit ''type'', JStr (lit source_type))])])]"

text \<open>The two records of the specification's example: one DOI, ten citations from a
  repository, four from a journal.\<close>

definition example_repository_record :: pydict where
  "example_repository_record = ranked_record ''Preprint'' ''https://doi.org/10.1/example'' 10 ''repository''"

definition example_journal_record :: pydict where
  "example_journal_record = ranked_record ''Article'' ''https://doi.org/10.1/example'' 4 ''journal''"

text \<open>Records that tie with the journal record on the citation count, and on the whole
  score.\<close>

definition example_repository_tie_record :: pydict where
  "example_repository_tie_record = ranked_record ''Mirror'' ''doi:10.1/EXAMPLE'' 4 ''Repository''"

definition example_journal_tie_record :: pydict where
  "example_journal_tie_record = ranked_record ''Reprint'' ''10.1/example'' 4 ''book series''"

text \<open>An instance of the interpreter's parameters, for evaluating the functions on
  concrete records. The records evaluated with it are ASCII and hold no float and no sort
  key that is not an integer: they reach \<open>float_of\<close> on \<^verbatim>\<open>None\<close> only, where
  \<^verbatim>\<open>float\<close> raises, and none of the other parameters.\<close>

definition plain_runtime :: py_runtime where
  "plain_runtime =
     \<lparr> float_of = (\<lambda>x. case x of JFloat f \<Rightarrow> Some f | _ \<Rightarrow> None),
       float_str = (\<lambda>f. lit ''nan''),
       sort_other = (\<lambda>ks. Inl TypeError),
       uni_space = (\<lambda>c. False),
       uni_word = (\<lambda>c. True),
       uni_digit = (\<lambda>c. False),
       uni_printable = (\<lambda>c. True),
       uni_combining = (\<lambda>c. False),
       uni_upper = (\<lambda>c. [c]),
       uni_lower = (\<lambda>s. s),
       uni_title = (\<lambda>s. s),
       uni_nfkd = (\<lambda>s. s),
       uni_int = (\<lambda>s. None) \<rparr>"

text \<open>A field of the record a function returned; \<open>None\<close> when it raised.\<close>

definition result_field :: "string \<Rightarrow> error + pydict \<Rightarrow> json option" where
  "result_field k r = (case r of Inl e \<Rightarrow> None | Inr p \<Rightarrow> Some (dget p (lit k)))"

text \<open>The author identifier after trimming and removal of the URL prefix, before
  \<^verbatim>\<open>normalize_author_id\<close> tests it.\<close>

definition bare_author_id :: "py_runtime \<Rightarrow> pystr option \<Rightarrow> pystr" where
  "bare_author_id rt raw =
     py_strip rt (py_replace (lit ''https://openalex.org/'') []
       (py_strip rt (case raw of None \<Rightarrow> [] | Some s \<Rightarrow> s)))"

text \<open>The year and the citations of a normalised work, a missing one read as 0.\<close>

definition year_or_zero :: "pydict \<Rightarrow> int" where
  "year_or_zero p = (case dget p (lit ''year'') of JInt y \<Rightarrow> y | _ \<Rightarrow> 0)"

definition citations_or_zero :: "pydict \<Rightarrow> int" where
  "citations_or_zero p = (case dget p (lit ''citations'') of JInt c \<Rightarrow> c | _ \<Rightarrow> 0)"

text \<open>The fields of a normalised work that the aggregation reads: the year is an integer
  or \<^verbatim>\<open>None\<close>, the citation count an integer, \<^verbatim>\<open>None\<close> or missing.\<close>

definition typed_paper :: "pydict \<Rightarrow> bool" where
  "typed_paper p =
     ((case dget p (lit ''year'') of JInt y \<Rightarrow> True | JNull \<Rightarrow> True | _ \<Rightarrow> False) \<and>
      (case dget p (lit ''citations'') of JInt c \<Rightarrow> True | JNull \<Rightarrow> True | _ \<Rightarrow> False))"

text \<open>The years of the works that have one, in input order.\<close>

definition paper_years :: "pydict list \<Rightarrow> int list" where
  "paper_years papers =
     concat (map (\<lambda>p. case dget p (lit ''year'') of JInt y \<Rightarrow> [y] | _ \<Rightarrow> []) papers)"

text \<open>The citations of the works of the year \<open>y\<close>, summed.\<close>

definition citations_in :: "int \<Rightarrow> pydict list \<Rightarrow> int" where
  "citations_in y papers =
     sum_list (map citations_or_zero (filter (\<lambda>p. dget p (lit ''year'') = JInt y) papers))"

text \<open>The pairs of a year and a citation count that \<^verbatim>\<open>build_citations_by_year\<close>
  adds up, in input order, and the total of a year.\<close>

definition year_pairs :: "pydict list \<Rightarrow> (int \<times> int) list" where
  "year_pairs papers =
     concat (map (\<lambda>p. case dget p (lit ''year'') of JInt y \<Rightarrow> [(y, citations_or_zero p)] | _ \<Rightarrow> [])
               papers)"

definition year_total :: "int \<Rightarrow> (int \<times> int) list \<Rightarrow> int" where
  "year_total y pairs = sum_list (map snd (filter (\<lambda>yc. fst yc = y) pairs))"

text \<open>The works of the specification's example: years 2020, 2020, 2021 with 5, 3 and 7
  citations.\<close>

definition example_papers :: "pydict list" where
  "example_papers =
     [[(lit ''year'', JInt 2020), (lit ''citations'', JInt 5)],
      [(lit ''year'', JInt 2020), (lit ''citations'', JInt 3)],
      [(lit ''year'', JInt 2021), (lit ''citations'', JInt 7)]]"

text \<open>Works of which one has no year and one no citation count.\<close>

definition example_undated_papers :: "pydict list" where
  "example_undated_papers =
     [[(lit ''year'', JInt 2021), (lit ''citations'', JInt 7)],
      [(lit ''year'', JNull), (lit ''citations'', JInt 2)],
      [(lit ''year'', JInt 2020)],
      [(lit ''year'', JInt 2020), (lit ''citations'', JInt 3)]]"

text \<open>The pair by which \<^verbatim>\<open>main\<close> sorts the normalised works, in the lexicographic
  order of pairs.\<close>

definition paper_rank :: "pydict \<Rightarrow> int \<times> int" where
  "paper_rank p = (year_or_zero p, citations_or_zero p)"

text \<open>A raw work with a title, an optional year and a citation count.\<close>

definition raw_work :: "string \<Rightarrow> int option \<Rightarrow> int \<Rightarrow> pydict" where
  "raw_work title year cites =
     (lit ''title'', JStr (lit title)) #
     (case year of None \<Rightarrow> [] | Some y \<Rightarrow> [(lit ''publication_year'', JInt y)]) @
     [(lit ''cited_by_count'', JInt cites)]"

text \<open>Four raw works without identifiers, one of them without a year, as a fetcher
  may return them.\<close>

definition example_raw_works :: "pydict list" where
  "example_raw_works =
     [raw_work ''Alpha'' (Some 2019) 3, raw_work ''Beta'' None 9,
      raw_work ''Gamma'' (Some 2021) 1, raw_work ''Delta'' (Some 2021) 6]"

text \<open>Two raw works, one with the year -1 and one without a year.\<close>

definition example_early_works :: "pydict list" where
  "example_early_works = [raw_work ''Early'' (Some (- 1)) 2, raw_work ''Undated'' None 2]"

text \<open>The three replacements of \<^verbatim>\<open>_norm_doi\<close>, in its order.\<close>

definition strip_doi_prefixes :: "pystr \<Rightarrow> pystr" where
  "strip_doi_prefixes d =
     py_replace (lit ''doi:'') []
       (py_replace (lit ''http://doi.org/'') [] (py_replace (lit ''https://doi.org/'') [] d))"







section \<open>Properties\<close>

subsection \<open>Results in the error monad\<close>

lemma emap_Inr_iff: "emap f xs = Inr ys \<longleftrightarrow> map f xs = map Inr ys"
proof (induction xs arbitrary: ys)
  case Nil
  show ?case by auto
next
  case (Cons x xs)
  show ?case
  proof (cases "f x")
    case (Inl e)
    then show ?thesis by (cases ys) auto
  next
    case fx: (Inr y)
    show ?thesis
    proof (cases "emap f xs")
      case (Inl e)
      with Cons.IH have "\<And>zs. map f xs \<noteq> map Inr zs" by auto
      with Inl fx show ?thesis by (cases ys) auto
    next
      case (Inr zs)
      with Cons.IH have "map f xs = map Inr zs" by auto
      with Inr fx show ?thesis by (cases ys) auto
    qed
  qed
qed

lemma emap_map: "emap f (map h xs) = emap (f \<circ> h) xs"
  by (induction xs) (auto split: sum.splits)

lemma emap_Inl_D: "emap f xs = Inl e \<Longrightarrow> \<exists>x \<in> set xs. f x = Inl e"
  by (induction xs) (auto split: sum.splits)

lemma emap_cases: "(\<exists>e. emap f xs = Inl e \<and> (\<exists>x \<in> set xs. f x = Inl e)) \<or> (\<exists>ys. emap f xs = Inr ys)"
  by (cases "emap f xs") (auto dest: emap_Inl_D)

lemma bucketize_Inr:
  "map (derive_key rt) ws = map Inr ks \<Longrightarrow>
   bucketize rt ws bs = Inr (foldl (\<lambda>b kw. setdefault_append (fst kw) (snd kw) b) bs (zip ks ws))"
proof (induction ws arbitrary: ks bs)
  case Nil
  then show ?case by simp
next
  case (Cons w ws)
  then obtain k ks' where "ks = k # ks'" "derive_key rt w = Inr k" "map (derive_key rt) ws = map Inr ks'"
    by (cases ks) auto
  with Cons.IH show ?case by simp
qed

lemma bucketize_Inr_D:
  "bucketize rt ws bs = Inr bs' \<Longrightarrow> \<exists>ks. map (derive_key rt) ws = map Inr ks"
proof (induction ws arbitrary: bs)
  case Nil
  then show ?case by simp
next
  case (Cons w ws)
  then obtain k where k: "derive_key rt w = Inr k" and "bucketize rt ws (setdefault_append k w bs) = Inr bs'"
    by (auto split: sum.splits)
  with Cons.IH obtain ks where "map (derive_key rt) ws = map Inr ks" by blast
  with k have "map (derive_key rt) (w # ws) = map Inr (k # ks)" by simp
  then show ?case by blast
qed

lemma first_occurrences_snoc:
  "first_occurrences (ks @ [k]) = (if k \<in> set ks then first_occurrences ks else first_occurrences ks @ [k])"
  by (simp add: first_occurrences_def)

lemma set_first_occurrences [simp]: "set (first_occurrences ks) = set ks"
  by (simp add: first_occurrences_def)

lemma distinct_first_occurrences [simp]: "distinct (first_occurrences ks)"
  by (simp add: first_occurrences_def)

lemma first_occurrences_distinct: "distinct ks \<Longrightarrow> first_occurrences ks = ks"
  by (simp add: first_occurrences_def distinct_remdups_id)

lemma length_first_occurrences: "length (first_occurrences ks) \<le> length ks"
  by (simp add: first_occurrences_def length_remdups_leq[of "rev ks", simplified])

lemma setdefault_append_map:
  "distinct K \<Longrightarrow>
   setdefault_append k v (map (\<lambda>k'. (k', g k')) K) =
     (if k \<in> set K then map (\<lambda>k'. (k', if k' = k then g k' @ [v] else g k')) K
      else map (\<lambda>k'. (k', g k')) K @ [(k, [v])])"
  by (induction K) auto

lemma groups_of_snoc:
  "groups_of (kws @ [(k, v)]) = setdefault_append k v (groups_of kws)"
proof -
  have d: "distinct (first_occurrences (map fst kws))" by simp
  show ?thesis
    unfolding groups_of_def
    by (subst setdefault_append_map[OF d])
       (auto simp: first_occurrences_snoc image_iff filter_empty_conv)
qed

lemma foldl_setdefault_append:
  "foldl (\<lambda>b kw. setdefault_append (fst kw) (snd kw) b) [] kws = groups_of kws"
proof (induction kws rule: rev_induct)
  case Nil
  show ?case by (simp add: groups_of_def first_occurrences_def)
next
  case (snoc kw kws)
  then show ?case by (cases kw) (simp add: groups_of_snoc)
qed

lemma sort_key_eq_Nil: "sort_key f xs = [] \<longleftrightarrow> xs = []"
  by (cases xs) (simp_all add: insort_not_Nil)

lemma sorted_desc_eq_Nil: "sorted_desc kxs = [] \<longleftrightarrow> kxs = []"
  by (simp add: sorted_desc_def sort_key_eq_Nil)

lemma last_filter_same: "xs \<noteq> [] \<Longrightarrow> P (last xs) \<Longrightarrow> last (filter P xs) = last xs"
  by (induction xs rule: rev_induct) auto

lemma sorted_le_last: "sorted xs \<Longrightarrow> x \<in> set xs \<Longrightarrow> x \<le> last xs"
  by (induction xs) (auto split: if_splits)

lemma hd_sorted_desc:
  fixes kxs :: "('k::linorder \<times> 'a) list"
  assumes ne: "kxs \<noteq> []"
  shows "hd (sorted_desc kxs) = hd (filter (\<lambda>kx. fst kx = Max (fst ` set kxs)) kxs)"
proof -
  let ?ys = "sort_key fst (rev kxs)"
  let ?m = "Max (fst ` set kxs)"
  have ys_ne: "?ys \<noteq> []" using ne by (simp add: sort_key_eq_Nil)
  have set_ys: "set ?ys = set kxs" by simp
  have "last ?ys \<in> set ?ys" using ys_ne by (rule last_in_set)
  then have last_in: "last ?ys \<in> set kxs" using set_ys by simp
  have srt: "sorted (map fst ?ys)" by (rule sorted_sort_key)
  have map_ne: "map fst ?ys \<noteq> []" using ys_ne by simp
  have "\<And>k. k \<in> fst ` set kxs \<Longrightarrow> k \<le> fst (last ?ys)"
  proof -
    fix k assume "k \<in> fst ` set kxs"
    then have "k \<in> set (map fst ?ys)" using set_ys by (simp add: image_iff)
    from sorted_le_last[OF srt this] show "k \<le> fst (last ?ys)"
      using map_ne by (simp add: last_map ys_ne)
  qed
  then have m: "fst (last ?ys) = ?m"
    using last_in by (intro Max_eqI[symmetric]) auto
  have "hd (sorted_desc kxs) = last ?ys"
    by (simp add: sorted_desc_def hd_rev)
  also have "\<dots> = last (filter (\<lambda>kx. fst kx = ?m) ?ys)"
    using last_filter_same[OF ys_ne, of "\<lambda>kx. fst kx = ?m"] m by simp
  also have "\<dots> = last (filter (\<lambda>kx. fst kx = ?m) (rev kxs))"
    by (simp only: sort_key_stable)
  also have "\<dots> = hd (filter (\<lambda>kx. fst kx = ?m) kxs)"
    by (simp add: rev_filter[symmetric] last_rev)
  finally show ?thesis .
qed

lemma find_hd_filter: "filter P xs \<noteq> [] \<Longrightarrow> find P xs = Some (hd (filter P xs))"
  by (induction xs) auto

lemma zip_keys:
  "map f xs = map Inr ks \<Longrightarrow> zip ks xs = map (\<lambda>x. (case f x of Inr s \<Rightarrow> s, x)) xs"
proof (induction xs arbitrary: ks)
  case Nil
  then show ?case by simp
next
  case (Cons x xs)
  then obtain k ks' where "ks = k # ks'" "f x = Inr k" "map f xs = map Inr ks'"
    by (cases ks) auto
  with Cons.IH show ?case by simp
qed

lemma filter_keys:
  "map f xs = map Inr ks \<Longrightarrow>
   filter (\<lambda>kx. fst kx = m) (zip ks xs) = map (\<lambda>x. (m, x)) (filter (\<lambda>x. f x = Inr m) xs)"
proof (induction xs arbitrary: ks)
  case Nil
  then show ?case by simp
next
  case (Cons x xs)
  then obtain k ks' where "ks = k # ks'" "f x = Inr k" "map f xs = map Inr ks'"
    by (cases ks) auto
  with Cons.IH show ?case by simp
qed

text \<open>The winner of a group whose members all have a score.\<close>

lemma select_winner_scored:
  assumes sc: "map (score rt) grp = map Inr ks" and ne: "grp \<noteq> []"
  shows "\<exists>win s. select_winner rt grp = Inr win \<and> score rt win = Inr s \<and> s = Max (set ks) \<and>
           find (\<lambda>x. score rt x = Inr s) grp = Some win"
proof -
  let ?m = "Max (set ks)"
  let ?P = "\<lambda>x. score rt x = Inr ?m"
  have len: "length ks = length grp" using sc by (metis length_map)
  have ks_ne: "ks \<noteq> []" using len ne by auto
  have "?m \<in> set ks" using ks_ne by simp
  then obtain i where i: "i < length ks" "ks ! i = ?m" by (auto simp: in_set_conv_nth)
  have sc_nth: "\<And>j. j < length grp \<Longrightarrow> score rt (grp ! j) = Inr (ks ! j)"
    using sc len by (metis nth_map)
  have "?P (grp ! i)" using sc_nth i len by simp
  moreover have "grp ! i \<in> set grp" using i len by simp
  ultimately have fne: "filter ?P grp \<noteq> []"
    unfolding filter_empty_conv by blast
  define win where "win = hd (filter ?P grp)"
  have win_in: "win \<in> set (filter ?P grp)" unfolding win_def by (rule hd_in_set[OF fne])
  then have win_sc: "score rt win = Inr ?m" by simp
  have fnd: "find ?P grp = Some win" unfolding win_def by (rule find_hd_filter[OF fne])
  have filt: "filter (\<lambda>kx. fst kx = ?m) (zip ks grp) = map (\<lambda>x. (?m, x)) (filter ?P grp)"
    by (rule filter_keys[OF sc])
  have sel: "select_winner rt grp = Inr win"
  proof (cases "length grp = 1")
    case True
    then obtain w where w: "grp = [w]" by (cases grp) auto
    with win_in have "win = w" by (auto split: if_splits)
    with w show ?thesis by (simp add: select_winner_def)
  next
    case False
    have zne: "zip ks grp \<noteq> []" using ks_ne ne by (cases ks; cases grp) auto
    have em: "emap (score rt) grp = Inr ks" using sc by (simp add: emap_Inr_iff)
    have set_eq: "fst ` set (zip ks grp) = set ks"
      using len by (metis map_fst_zip set_map)
    have "hd (sorted_desc (zip ks grp)) = hd (filter (\<lambda>kx. fst kx = ?m) (zip ks grp))"
      using hd_sorted_desc[OF zne] set_eq by simp
    also have "\<dots> = (?m, win)"
      unfolding filt win_def using fne by (simp add: hd_map)
    finally have hd_eq: "hd (sorted_desc (zip ks grp)) = (?m, win)" .
    have sne: "sorted_desc (zip ks grp) \<noteq> []"
      using zne by (simp add: sorted_desc_eq_Nil)
    then obtain kw kws where kk: "sorted_desc (zip ks grp) = kw # kws"
      by (cases "sorted_desc (zip ks grp)") auto
    with hd_eq have "kw = (?m, win)" by simp
    with kk em False show ?thesis by (simp add: select_winner_def)
  qed
  show ?thesis using sel win_sc fnd by blast
qed

lemma groups_of_zip:
  assumes "map f ws = map Inr ks"
  shows "groups_of (zip ks ws) = map (\<lambda>k. (k, filter (\<lambda>w. f w = Inr k) ws)) (first_occurrences ks)"
proof -
  have len: "length ks = length ws" using assms by (metis length_map)
  have "\<And>k. map snd (filter (\<lambda>p. fst p = k) (zip ks ws)) = filter (\<lambda>w. f w = Inr k) ws"
    by (simp add: filter_keys[OF assms] comp_def)
  then show ?thesis by (simp add: groups_of_def len)
qed

lemma dedupe_works_groups:
  assumes "dedupe_works rt ws = Inr out"
  shows "\<exists>ks. map (derive_key rt) ws = map Inr ks \<and>
           map (\<lambda>k. select_winner rt (key_group rt k ws)) (first_occurrences ks) = map Inr out"
proof -
  from assms obtain bs where bs: "bucketize rt ws [] = Inr bs"
    and em: "emap (\<lambda>b. select_winner rt (snd b)) bs = Inr out"
    by (auto simp: dedupe_works_def split: sum.splits)
  from bucketize_Inr_D[OF bs] obtain ks where ks: "map (derive_key rt) ws = map Inr ks" by blast
  have "bs = groups_of (zip ks ws)"
    using bucketize_Inr[OF ks, of "[]"] bs by (simp add: foldl_setdefault_append)
  then have "bs = map (\<lambda>k. (k, key_group rt k ws)) (first_occurrences ks)"
    by (simp add: groups_of_zip[OF ks] key_group_def)
  with em have "map (\<lambda>k. select_winner rt (key_group rt k ws)) (first_occurrences ks) = map Inr out"
    by (simp add: emap_Inr_iff comp_def)
  with ks show ?thesis by blast
qed

lemma dedupe_works_from_groups:
  assumes "map (derive_key rt) ws = map Inr ks"
  shows "dedupe_works rt ws = emap (\<lambda>k. select_winner rt (key_group rt k ws)) (first_occurrences ks)"
proof -
  have "bucketize rt ws [] = Inr (map (\<lambda>k. (k, key_group rt k ws)) (first_occurrences ks))"
    using bucketize_Inr[OF assms, of "[]"]
    by (simp add: foldl_setdefault_append groups_of_zip[OF assms] key_group_def)
  moreover have "emap (\<lambda>b. select_winner rt (snd b)) (map (\<lambda>k. (k, key_group rt k ws)) K)
      = emap (\<lambda>k. select_winner rt (key_group rt k ws)) K" for K
    by (simp add: emap_map comp_def)
  ultimately show ?thesis by (simp add: dedupe_works_def)
qed

lemma select_winner_unscored:
  assumes "select_winner rt grp = Inr win" and "length grp \<noteq> 1"
  shows "\<exists>ks. map (score rt) grp = map Inr ks"
  using assms by (auto simp: select_winner_def emap_Inr_iff split: sum.splits)

lemma select_winner_mem:
  assumes "select_winner rt grp = Inr win"
  shows "win \<in> set grp"
proof (cases "length grp = 1")
  case True
  then obtain w where "grp = [w]" by (cases grp) auto
  with assms show ?thesis by (simp add: select_winner_def)
next
  case False
  from select_winner_unscored[OF assms False] obtain ks where ks: "map (score rt) grp = map Inr ks" by blast
  have ne: "grp \<noteq> []"
  proof
    assume "grp = []"
    with assms show False by (simp add: select_winner_def sorted_desc_def)
  qed
  from select_winner_scored[OF ks ne] assms obtain s where "find (\<lambda>x. score rt x = Inr s) grp = Some win"
    by auto
  then show ?thesis by (auto simp: find_Some_iff)
qed

lemma key_group_key: "w \<in> set (key_group rt k ws) \<Longrightarrow> derive_key rt w = Inr k \<and> w \<in> set ws"
  by (simp add: key_group_def)

lemma filter_map_distinct:
  assumes "distinct K" and "k \<in> set K" and "\<And>k'. k' \<in> set K \<Longrightarrow> key (g k') = Inr k'"
  shows "filter (\<lambda>x. key x = Inr k) (map g K) = [g k]"
  using assms by (induction K) (auto simp: filter_empty_conv)

text \<open>The output of a successful run, key by key.\<close>

lemma dedupe_works_winners:
  assumes "dedupe_works rt ws = Inr out"
  shows "\<exists>ks g. map (derive_key rt) ws = map Inr ks \<and> out = map g (first_occurrences ks) \<and>
           (\<forall>k \<in> set ks. select_winner rt (key_group rt k ws) = Inr (g k) \<and>
                          g k \<in> set ws \<and> derive_key rt (g k) = Inr k)"
proof -
  from dedupe_works_groups[OF assms] obtain ks where
    ks: "map (derive_key rt) ws = map Inr ks" and
    sel: "map (\<lambda>k. select_winner rt (key_group rt k ws)) (first_occurrences ks) = map Inr out"
    by blast
  define g where "g k = (case select_winner rt (key_group rt k ws) of Inr w \<Rightarrow> w)" for k
  have each: "select_winner rt (key_group rt k ws) = Inr (g k)" if "k \<in> set ks" for k
  proof -
    from that have "k \<in> set (first_occurrences ks)" by simp
    then have "select_winner rt (key_group rt k ws) \<in> set (map Inr out)"
      using sel by (metis (no_types, lifting) image_eqI set_map)
    then obtain w where "select_winner rt (key_group rt k ws) = Inr w" by auto
    then show ?thesis by (simp add: g_def)
  qed
  have e1: "map (\<lambda>k. select_winner rt (key_group rt k ws)) (first_occurrences ks)
          = map (\<lambda>k. Inr (g k)) (first_occurrences ks)"
    by (rule map_cong) (simp_all add: each)
  have "(map Inr out :: (error + pydict) list) = map (\<lambda>k. Inr (g k)) (first_occurrences ks)"
    using sel[symmetric] e1 by (rule trans)
  then have "(map Inr out :: (error + pydict) list) = map Inr (map g (first_occurrences ks))"
    by (simp add: comp_def)
  then have out: "out = map g (first_occurrences ks)"
    by (simp only: inj_map_eq_map[OF inj_Inr])
  have "\<forall>k \<in> set ks. select_winner rt (key_group rt k ws) = Inr (g k) \<and>
                          g k \<in> set ws \<and> derive_key rt (g k) = Inr k"
    using each select_winner_mem key_group_key by blast
  with ks out show ?thesis by blast
qed

subsection \<open>Deduplication\<close>

lemma triple_le_iff:
  "((hx, cx, bx) \<le> (h, c, b)) = (hx < h \<or> hx = h \<and> (cx < c \<or> cx = c \<and> bx \<le> b))"
  for h hx c cx b bx :: int
  by (auto simp: less_eq_prod_def)

lemma py_str_JStr: "py_str rt (JStr s) = Inr s"
  by (simp add: py_str_def)

lemma py_int_JInt: "py_int rt (JInt i) = Inr i"
  by (simp add: py_int_def)

lemma score_components:
  "score rt w = Inr (h, c, b) \<longleftrightarrow>
     h = (if get_doi rt w = None then 0 else 1) \<and>
     py_int rt (py_or (dget w (lit ''cited_by_count'')) (JInt 0)) = Inr c \<and>
     (\<exists>ty t. jget (ranking_source w) (lit ''type'') = Inr ty \<and>
             py_str rt (py_or ty (JStr [])) = Inr t \<and>
             b = (if py_lower rt t = lit ''repository'' then 0 else 1))"
  unfolding score_def ranking_source_def Let_def
  by (auto split: sum.splits)

lemma score_ranked_record:
  "score rt (ranked_record title doi cites source_type) =
     Inr (if norm_doi rt (lit doi) = None then 0 else 1, cites,
          if py_lower rt (lit source_type) = lit ''repository'' then 0 else 1)"
proof -
  let ?w = "ranked_record title doi cites source_type"
  have d: "get_doi rt ?w = norm_doi rt (lit doi)"
    by (simp add: get_doi_def ranked_record_def dget_def lit_def)
  have c: "py_int rt (py_or (dget ?w (lit ''cited_by_count'')) (JInt 0)) = Inr cites"
    by (simp add: ranked_record_def dget_def lit_def py_or_def py_int_JInt truthy_def)
  have s: "ranking_source ?w = JDict [(lit ''type'', JStr (lit source_type))]"
    by (simp add: ranking_source_def ranked_record_def dget_def lit_def py_or_def truthy_def)
  have t: "py_str rt (py_or (JStr (lit source_type)) (JStr [])) = Inr (lit source_type)"
    by (cases source_type) (simp_all add: py_or_def py_str_JStr lit_def truthy_def)
  show ?thesis
    unfolding score_components d c s
    by (auto simp: jget_def dget_def t)
qed

text \<open>
  Claim C1. When \<open>dedupe_works\<close> returns and more than one input record has the
  identity key \<open>k\<close>, the output holds exactly one record with that key, the winner.
  Its score \<open>(h, c, b)\<close> is the greatest of the group in the lexicographic order, a
  member with the score \<open>(hx, cx, bx)\<close> having \<open>hx < h\<close>, or \<open>hx = h\<close> and \<open>cx < c\<close>, or
  \<open>hx = h\<close>, \<open>cx = c\<close> and \<open>bx \<le> b\<close>; among the members with the winner's score it is
  the first in input order. The three components of a score are: 1 if the record has a
  DOI and else 0; the citation count as an integer, 0 when it is missing; 0 if the
  lower-cased type of the source of the best location is \<^verbatim>\<open>repository\<close> and else 1. In
  the example of two records with one DOI, the repository record with ten citations
  has the score \<open>(1, 10, 0)\<close> and the journal record with four the score \<open>(1, 4, 1)\<close>,
  and the repository record is selected in either input order. On a tie in the citation
  count the journal record is selected over the repository record, and of two records
  with the same score the first.
\<close>

theorem dedupe_winner_first_maximum:
  "(dedupe_works rt ws = Inr out \<and> 1 < length (key_group rt k ws) \<longrightarrow>
      (\<exists>win h c b. filter (\<lambda>x. derive_key rt x = Inr k) out = [win] \<and>
         score rt win = Inr (h, c, b) \<and>
         (\<forall>x \<in> set (key_group rt k ws). \<exists>hx cx bx. score rt x = Inr (hx, cx, bx) \<and>
            (hx < h \<or> hx = h \<and> (cx < c \<or> cx = c \<and> bx \<le> b))) \<and>
         find (\<lambda>x. score rt x = Inr (h, c, b)) (key_group rt k ws) = Some win)) \<and>
   (score rt w = Inr (h', c', b') \<longleftrightarrow>
      h' = (if get_doi rt w = None then 0 else 1) \<and>
      py_int rt (py_or (dget w (lit ''cited_by_count'')) (JInt 0)) = Inr c' \<and>
      (\<exists>ty t. jget (ranking_source w) (lit ''type'') = Inr ty \<and>
              py_str rt (py_or ty (JStr [])) = Inr t \<and>
              b' = (if py_lower rt t = lit ''repository'' then 0 else 1))) \<and>
   score rt (ranked_record title doi cites source_type) =
     Inr (if norm_doi rt (lit doi) = None then 0 else 1, cites,
          if py_lower rt (lit source_type) = lit ''repository'' then 0 else 1) \<and>
   score rt example_repository_record = Inr (1, 10, 0) \<and>
   score rt example_journal_record = Inr (1, 4, 1) \<and>
   score rt example_repository_tie_record = Inr (1, 4, 0) \<and>
   score rt example_journal_tie_record = Inr (1, 4, 1) \<and>
   dedupe_works rt [example_repository_record, example_journal_record]
     = Inr [example_repository_record] \<and>
   dedupe_works rt [example_journal_record, example_repository_record]
     = Inr [example_repository_record] \<and>
   dedupe_works rt [example_repository_tie_record, example_journal_record]
     = Inr [example_journal_record] \<and>
   dedupe_works rt [example_journal_tie_record, example_repository_tie_record,
                    example_journal_record]
     = Inr [example_journal_tie_record] \<and>
   dedupe_works rt [example_journal_record, example_repository_tie_record,
                    example_journal_tie_record]
     = Inr [example_journal_record]"
proof -
  have winner: "\<exists>win h c b. filter (\<lambda>x. derive_key rt x = Inr k) out = [win] \<and>
         score rt win = Inr (h, c, b) \<and>
         (\<forall>x \<in> set (key_group rt k ws). \<exists>hx cx bx. score rt x = Inr (hx, cx, bx) \<and>
            (hx < h \<or> hx = h \<and> (cx < c \<or> cx = c \<and> bx \<le> b))) \<and>
         find (\<lambda>x. score rt x = Inr (h, c, b)) (key_group rt k ws) = Some win"
    if a: "dedupe_works rt ws = Inr out \<and> 1 < length (key_group rt k ws)"
  proof -
    from a have run: "dedupe_works rt ws = Inr out" and big: "1 < length (key_group rt k ws)"
      by auto
    let ?grp = "key_group rt k ws"
    from dedupe_works_winners[OF run] obtain ks g where
      ks: "map (derive_key rt) ws = map Inr ks" and out: "out = map g (first_occurrences ks)" and
      each: "\<forall>k \<in> set ks. select_winner rt (key_group rt k ws) = Inr (g k) \<and>
                            g k \<in> set ws \<and> derive_key rt (g k) = Inr k"
      by blast
    from big have ne: "?grp \<noteq> []" by auto
    then obtain w where "w \<in> set ?grp" by (cases ?grp) auto
    then have w: "w \<in> set ws" "derive_key rt w = Inr k" by (auto simp: key_group_def)
    then have "Inr k \<in> set (map (derive_key rt) ws)" by force
    then have k_in: "k \<in> set ks" using ks by auto
    with each have sel: "select_winner rt ?grp = Inr (g k)" by blast
    have one: "filter (\<lambda>x. derive_key rt x = Inr k) out = [g k]"
      unfolding out
      by (rule filter_map_distinct) (use k_in each in auto)
    from big have "length ?grp \<noteq> 1" by simp
    from select_winner_unscored[OF sel this] obtain ss where
      ss: "map (score rt) ?grp = map Inr ss"
      by blast
    obtain h c b where m: "Max (set ss) = (h, c, b)" by (cases "Max (set ss)") auto
    from select_winner_scored[OF ss ne] sel have
      win_sc: "score rt (g k) = Inr (h, c, b)" and
      fnd: "find (\<lambda>x. score rt x = Inr (h, c, b)) ?grp = Some (g k)"
      by (auto simp: m)
    have "\<exists>hx cx bx. score rt x = Inr (hx, cx, bx) \<and>
            (hx < h \<or> hx = h \<and> (cx < c \<or> cx = c \<and> bx \<le> b))" if "x \<in> set ?grp" for x
    proof -
      from that have "score rt x \<in> set (map (score rt) ?grp)" by simp
      with ss obtain sx where sx: "score rt x = Inr sx" "sx \<in> set ss" by auto
      then have le: "sx \<le> (h, c, b)" using m by (metis List.finite_set Max_ge)
      obtain hx cx bx where "sx = (hx, cx, bx)" by (cases sx) auto
      with sx le show ?thesis by (auto simp: triple_le_iff)
    qed
    with one win_sc fnd show ?thesis by blast
  qed
  have e1: "score rt example_repository_record = Inr (1, 10, 0)" by code_simp
  have e2: "score rt example_journal_record = Inr (1, 4, 1)" by code_simp
  have e3: "score rt example_repository_tie_record = Inr (1, 4, 0)" by code_simp
  have e4: "score rt example_journal_tie_record = Inr (1, 4, 1)" by code_simp
  have d1: "dedupe_works rt [example_repository_record, example_journal_record]
     = Inr [example_repository_record]"
    by code_simp
  have d2: "dedupe_works rt [example_journal_record, example_repository_record]
     = Inr [example_repository_record]"
    by code_simp
  have d3: "dedupe_works rt [example_repository_tie_record, example_journal_record]
     = Inr [example_journal_record]"
    by code_simp
  have d4: "dedupe_works rt [example_journal_tie_record, example_repository_tie_record,
                    example_journal_record]
     = Inr [example_journal_tie_record]"
    by code_simp
  have d5: "dedupe_works rt [example_journal_record, example_repository_tie_record,
                    example_journal_tie_record]
     = Inr [example_journal_record]"
    by code_simp
  from winner score_components[of rt w h' c' b']
    score_ranked_record[of rt title doi cites source_type] e1 e2 e3 e4 d1 d2 d3 d4 d5
  show ?thesis by blast
qed

theorem dedupe_winner_first_maximum_witness:
  "dedupe_works plain_runtime [example_journal_tie_record, example_repository_tie_record,
                               example_journal_record]
       = Inr [example_journal_tie_record] \<and>
   1 < length (key_group plain_runtime (lit ''doi'', lit ''10.1/example'')
                 [example_journal_tie_record, example_repository_tie_record,
                  example_journal_record]) \<and>
   (\<exists>win h c b. filter (\<lambda>x. derive_key plain_runtime x = Inr (lit ''doi'', lit ''10.1/example''))
                [example_journal_tie_record] = [win] \<and>
         score plain_runtime win = Inr (h, c, b) \<and>
         find (\<lambda>x. score plain_runtime x = Inr (h, c, b))
           (key_group plain_runtime (lit ''doi'', lit ''10.1/example'')
              [example_journal_tie_record, example_repository_tie_record,
               example_journal_record]) = Some win) \<and>
   score plain_runtime example_repository_record = Inr (1, 10, 0) \<and>
   get_doi plain_runtime example_repository_record \<noteq> None \<and>
   py_int plain_runtime (py_or (dget example_repository_record (lit ''cited_by_count'')) (JInt 0))
     = Inr 10"
proof -
  have run: "dedupe_works plain_runtime [example_journal_tie_record,
               example_repository_tie_record, example_journal_record]
       = Inr [example_journal_tie_record]"
    by code_simp
  have big: "1 < length (key_group plain_runtime (lit ''doi'', lit ''10.1/example'')
                 [example_journal_tie_record, example_repository_tie_record,
                  example_journal_record])"
    by code_simp
  have sc: "score plain_runtime example_repository_record = Inr (1, 10, 0)"
    by code_simp
  have doi: "get_doi plain_runtime example_repository_record \<noteq> None"
    by code_simp
  from dedupe_winner_first_maximum[of plain_runtime
        "[example_journal_tie_record, example_repository_tie_record, example_journal_record]"
        "[example_journal_tie_record]"
        "(lit ''doi'', lit ''10.1/example'')" example_repository_record 1 10 0] run big sc doi
  show ?thesis by blast
qed

text \<open>
  Claim C3. Running \<open>dedupe_works\<close> on its own output gives that output again, in the
  same order: the composition of two runs equals one run (an exception of the first run
  is the exception of the composition), and in the output of a run every record is alone
  in the group of its key.
\<close>

theorem dedupe_works_idempotent:
  "ebind (dedupe_works rt ws) (dedupe_works rt) = dedupe_works rt ws \<and>
   (dedupe_works rt ws = Inr out \<longrightarrow>
      dedupe_works rt out = Inr out \<and>
      (\<forall>w \<in> set out. \<exists>k. derive_key rt w = Inr k \<and> key_group rt k out = [w]))"
proof -
  have main: "dedupe_works rt out' = Inr out' \<and>
      (\<forall>w \<in> set out'. \<exists>k. derive_key rt w = Inr k \<and> key_group rt k out' = [w])"
    if run: "dedupe_works rt ws = Inr out'" for out'
  proof -
    from dedupe_works_winners[OF run] obtain ks g where
      ks: "map (derive_key rt) ws = map Inr ks" and out: "out' = map g (first_occurrences ks)" and
      each: "\<forall>k \<in> set ks. select_winner rt (key_group rt k ws) = Inr (g k) \<and>
                            g k \<in> set ws \<and> derive_key rt (g k) = Inr k"
      by blast
    let ?K = "first_occurrences ks"
    have keys: "map (derive_key rt) out' = map Inr ?K"
      unfolding out using each by simp
    have grp: "key_group rt k out' = [g k]" if "k \<in> set ?K" for k
      unfolding out key_group_def
      by (rule filter_map_distinct) (use that each in auto)
    have "dedupe_works rt out' = emap (\<lambda>k. select_winner rt (key_group rt k out')) (first_occurrences ?K)"
      by (rule dedupe_works_from_groups[OF keys])
    also have "first_occurrences ?K = ?K" by (simp add: first_occurrences_distinct)
    also have "emap (\<lambda>k. select_winner rt (key_group rt k out')) ?K = Inr (map g ?K)"
      unfolding emap_Inr_iff
      by (simp add: grp select_winner_def comp_def)
    finally have 1: "dedupe_works rt out' = Inr out'" using out by simp
    have 2: "\<forall>w \<in> set out'. \<exists>k. derive_key rt w = Inr k \<and> key_group rt k out' = [w]"
      unfolding out using each grp by (auto simp: out)
    from 1 2 show ?thesis by blast
  qed
  have "ebind (dedupe_works rt ws) (dedupe_works rt) = dedupe_works rt ws"
    by (cases "dedupe_works rt ws") (auto simp: ebind_def main)
  with main show ?thesis by blast
qed

theorem dedupe_works_idempotent_witness:
  "dedupe_works plain_runtime [example_journal_record, example_repository_record]
       = Inr [example_repository_record] \<and>
   dedupe_works plain_runtime [example_repository_record] = Inr [example_repository_record]"
proof -
  have run: "dedupe_works plain_runtime [example_journal_record, example_repository_record]
       = Inr [example_repository_record]"
    by code_simp
  from dedupe_works_idempotent[of plain_runtime
        "[example_journal_record, example_repository_record]" "[example_repository_record]"] run
  have "dedupe_works plain_runtime [example_repository_record] = Inr [example_repository_record]"
    by blast
  with run show ?thesis by (rule conjI)
qed

text \<open>
  Claim C10. When \<open>dedupe_works\<close> returns, every record of its output is a record of
  its input, no two records of the output have the same identity key (so no record
  occurs twice), and the output is not longer than the input.
\<close>

theorem dedupe_works_selects_inputs:
  "dedupe_works rt ws = Inr out \<Longrightarrow>
     set out \<subseteq> set ws \<and> distinct (map (derive_key rt) out) \<and> distinct out \<and>
     length out \<le> length ws"
proof -
  assume run: "dedupe_works rt ws = Inr out"
  from dedupe_works_winners[OF run] obtain ks g where
    ks: "map (derive_key rt) ws = map Inr ks" and out: "out = map g (first_occurrences ks)" and
    each: "\<forall>k \<in> set ks. select_winner rt (key_group rt k ws) = Inr (g k) \<and>
                          g k \<in> set ws \<and> derive_key rt (g k) = Inr k"
    by blast
  let ?K = "first_occurrences ks"
  have sub: "set out \<subseteq> set ws" unfolding out using each by auto
  have keys: "map (derive_key rt) out = map Inr ?K"
    unfolding out using each by simp
  have dk: "distinct (map (derive_key rt) out)"
    unfolding keys by (simp add: distinct_map)
  then have d: "distinct out" by (simp add: distinct_map)
  have "length ks = length ws" using ks by (metis length_map)
  then have len: "length out \<le> length ws"
    unfolding out using length_first_occurrences[of ks] by simp
  from sub dk d len show ?thesis by blast
qed

theorem dedupe_works_selects_inputs_witness:
  "dedupe_works plain_runtime [example_journal_record, example_repository_record]
       = Inr [example_repository_record] \<and>
   (set [example_repository_record] \<subseteq> set [example_journal_record, example_repository_record] \<and>
    distinct (map (derive_key plain_runtime) [example_repository_record]) \<and>
    distinct [example_repository_record] \<and>
    length [example_repository_record]
      \<le> length [example_journal_record, example_repository_record])"
proof -
  have run: "dedupe_works plain_runtime [example_journal_record, example_repository_record]
       = Inr [example_repository_record]"
    by code_simp
  show ?thesis using run dedupe_works_selects_inputs[OF run] by (rule conjI)
qed

subsection \<open>Normalisation\<close>

lemma normalize_work_fields:
  assumes "normalize_work rt w aid = Inr p"
  shows "dget p (lit ''year'') = opt_int (safe_int rt (dget w (lit ''publication_year''))) \<and>
         dget p (lit ''citations'') =
           JInt (case safe_int rt (dget w (lit ''cited_by_count'')) of None \<Rightarrow> 0 | Some n \<Rightarrow> n)"
  using assms
  by (auto simp: normalize_work_def ebind_def Let_def dget_def lit_def split: sum.splits)

lemma digits_ok_ones: "digits_ok (49 # replicate n 49)"
  by (induction n) (simp_all add: dec_digit_def)

lemma ascii_ones: "ascii (replicate n 49)"
  by (simp add: ascii_def ascii_char_def list_all_iff)

lemma filter_digit_ones: "filter dec_digit (replicate n 49) = replicate n 49"
  by (induction n) (simp_all add: dec_digit_def)

lemma dropWhile_space_ones: "dropWhile c_space (replicate n 49) = replicate n 49"
  by (cases n) (simp_all add: c_space_def)

lemma int_of_ascii_ones:
  "int_of_ascii (replicate (Suc n) 49) =
     (if int (Suc n) \<le> int_max_str_digits then Some (digits_val (replicate (Suc n) 49)) else None)"
proof -
  have "rev (dropWhile c_space (rev (dropWhile c_space (replicate (Suc n) 49))))
          = 49 # replicate n 49"
    by (simp only: dropWhile_space_ones rev_replicate) simp
  then show ?thesis
    unfolding int_of_ascii_def
    using digits_ok_ones[of n] filter_digit_ones[of "Suc n"]
    by (simp add: Let_def)
qed

lemma int_of_str_ones:
  "(int_of_str rt (replicate n 49) = Inl ValueError) = (n = 0 \<or> 4300 < n)"
proof (cases n)
  case 0
  then show ?thesis by (simp add: int_of_str_def ascii_def int_of_ascii_def)
next
  case (Suc m)
  show ?thesis
    unfolding Suc int_of_str_def
    by (simp only: ascii_ones int_of_ascii_ones if_True) (simp add: int_max_str_digits_def)
qed

lemma safe_int_cases:
  "(case safe_int rt x of None \<Rightarrow> 0 | Some n \<Rightarrow> n) =
     (case x of
        JInt n \<Rightarrow> n
      | JBool b \<Rightarrow> (if b then 1 else 0)
      | JFloat f \<Rightarrow> (case int_of_float f of Inl e \<Rightarrow> 0 | Inr i \<Rightarrow> i)
      | JStr s \<Rightarrow> (case int_of_str rt s of Inl e \<Rightarrow> 0 | Inr i \<Rightarrow> i)
      | _ \<Rightarrow> 0)"
  by (cases x) (auto simp: safe_int_def py_int_def split: sum.splits)

text \<open>
  Claim C8. On the empty raw record \<^verbatim>\<open>{}\<close>, \<open>normalize_work\<close> returns, for every
  author identifier, the record below: its title is \<^verbatim>\<open>"Untitled"\<close>, its citations are
  0, its year is \<^verbatim>\<open>None\<close>, its venue is the em dash and its url is \<^verbatim>\<open>"#"\<close>.
\<close>

theorem normalize_work_empty_record:
  "normalize_work rt [] aid =
     Inr [(lit ''id'', JNull),
          (lit ''title'', JStr (lit ''Untitled'')),
          (lit ''year'', JNull),
          (lit ''venue'', JStr em_dash),
          (lit ''citations'', JInt 0),
          (lit ''doi'', JNull),
          (lit ''url'', JStr (lit ''#'')),
          (lit ''hal_url'', JNull),
          (lit ''type'', JStr em_dash),
          (lit ''is_oa'', JBool False),
          (lit ''oa_status'', JStr (lit ''unknown'')),
          (lit ''fwci'', opt_float (float_of rt JNull)),
          (lit ''citation_norm_percentile'', JNull),
          (lit ''topics'', JList []),
          (lit ''keywords'', JList []),
          (lit ''coauthors'', JList []),
          (lit ''source'', JStr (lit ''OpenAlex''))] \<and>
   result_field ''title'' (normalize_work rt [] aid) = Some (JStr (lit ''Untitled'')) \<and>
   result_field ''citations'' (normalize_work rt [] aid) = Some (JInt 0) \<and>
   result_field ''year'' (normalize_work rt [] aid) = Some JNull \<and>
   result_field ''venue'' (normalize_work rt [] aid) = Some (JStr em_dash) \<and>
   result_field ''url'' (normalize_work rt [] aid) = Some (JStr (lit ''#''))"
  by code_simp

text \<open>
  Claim C6, as amended. When \<open>normalize_work\<close> returns, the citations field of its
  record is an integer that depends on the raw \<^verbatim>\<open>cited_by_count\<close> only: an integer
  count is kept as it is, also when it is negative; a Boolean counts as 1 or 0; a
  float is truncated towards zero, and is read as 0 when it is infinite or not a number;
  a string is read as \<^verbatim>\<open>int\<close> reads it, and as 0 when \<^verbatim>\<open>int\<close> rejects it; every
  other count, and a missing one, is read as 0. The field is non-negative whenever the
  raw count is an integer, a float or a numeric string that is not negative. \<^verbatim>\<open>int\<close>
  reads a string of ASCII digits with blanks around it, a sign before it and single
  underscores in it; it rejects a string with a separator character (code 28 to 31)
  beside the digits, a word, a decimal fraction, and a string of more than 4300 digits.
\<close>

theorem normalize_work_citations:
  "normalize_work rt w aid = Inr p \<Longrightarrow>
     dget p (lit ''citations'') =
       JInt (case dget w (lit ''cited_by_count'') of
               JInt n \<Rightarrow> n
             | JBool b \<Rightarrow> (if b then 1 else 0)
             | JFloat f \<Rightarrow> (case int_of_float f of Inl e \<Rightarrow> 0 | Inr i \<Rightarrow> i)
             | JStr s \<Rightarrow> (case int_of_str rt s of Inl e \<Rightarrow> 0 | Inr i \<Rightarrow> i)
             | _ \<Rightarrow> 0) \<and>
     (map_of w (lit ''cited_by_count'') = None \<longrightarrow> dget p (lit ''citations'') = JInt 0) \<and>
     (\<forall>n. dget w (lit ''cited_by_count'') = JInt n \<longrightarrow> dget p (lit ''citations'') = JInt n) \<and>
     (\<forall>n. py_int rt (dget w (lit ''cited_by_count'')) = Inr n \<and> 0 \<le> n \<longrightarrow>
          dget p (lit ''citations'') = JInt n) \<and>
     (\<forall>e. py_int rt (dget w (lit ''cited_by_count'')) = Inl e \<longrightarrow>
          dget p (lit ''citations'') = JInt 0) \<and>
     int_of_str rt (lit '' 42 '') = Inr 42 \<and>
     int_of_str rt (lit [CHR 0x0B, CHR ''1'', CHR ''2'', CHR 0x09, CHR 0x0A]) = Inr 12 \<and>
     int_of_str rt (lit [CHR ''1'', CHR ''2'', CHR 0x1F]) = Inl ValueError \<and>
     int_of_str rt (lit [CHR 0x1C, CHR ''1'', CHR ''2'']) = Inl ValueError \<and>
     int_of_str rt (lit ''-5'') = Inr (- 5) \<and>
     int_of_str rt (lit ''+7'') = Inr 7 \<and>
     int_of_str rt (lit ''1_000'') = Inr 1000 \<and>
     int_of_str rt (lit ''1__0'') = Inl ValueError \<and>
     int_of_str rt (lit ''_1'') = Inl ValueError \<and>
     int_of_str rt (lit ''- 1'') = Inl ValueError \<and>
     int_of_str rt (lit ''3.7'') = Inl ValueError \<and>
     int_of_str rt (lit ''many'') = Inl ValueError \<and>
     int_of_str rt [] = Inl ValueError \<and>
     (int_of_str rt (replicate k 49) = Inl ValueError) = (k = 0 \<or> 4300 < k) \<and>
     int_of_float (FFin False 7 (- 1)) = Inr 3 \<and>
     int_of_float (FFin True 7 (- 1)) = Inr (- 3) \<and>
     int_of_float (FFin False 3 2) = Inr 12 \<and>
     int_of_float FNaN = Inl ValueError \<and>
     int_of_float (FInf False) = Inl OverflowError"
proof -
  assume run: "normalize_work rt w aid = Inr p"
  let ?x = "dget w (lit ''cited_by_count'')"
  have c: "dget p (lit ''citations'') = JInt (case safe_int rt ?x of None \<Rightarrow> 0 | Some n \<Rightarrow> n)"
    using normalize_work_fields[OF run] by blast
  have 1: "dget p (lit ''citations'') =
       JInt (case ?x of
               JInt n \<Rightarrow> n
             | JBool b \<Rightarrow> (if b then 1 else 0)
             | JFloat f \<Rightarrow> (case int_of_float f of Inl e \<Rightarrow> 0 | Inr i \<Rightarrow> i)
             | JStr s \<Rightarrow> (case int_of_str rt s of Inl e \<Rightarrow> 0 | Inr i \<Rightarrow> i)
             | _ \<Rightarrow> 0)"
    unfolding c by (simp only: safe_int_cases)
  have 2: "map_of w (lit ''cited_by_count'') = None \<longrightarrow> dget p (lit ''citations'') = JInt 0"
    unfolding 1 by (simp add: dget_def)
  have 3: "\<forall>n. ?x = JInt n \<longrightarrow> dget p (lit ''citations'') = JInt n"
    unfolding 1 by simp
  have 4: "\<forall>n. py_int rt ?x = Inr n \<and> 0 \<le> n \<longrightarrow> dget p (lit ''citations'') = JInt n"
    unfolding c by (simp add: safe_int_def)
  have 5: "\<forall>e. py_int rt ?x = Inl e \<longrightarrow> dget p (lit ''citations'') = JInt 0"
    unfolding c by (simp add: safe_int_def)
  have s1: "int_of_str rt (lit '' 42 '') = Inr 42" by code_simp
  have s2: "int_of_str rt (lit [CHR 0x0B, CHR ''1'', CHR ''2'', CHR 0x09, CHR 0x0A]) = Inr 12"
    by code_simp
  have s3: "int_of_str rt (lit [CHR ''1'', CHR ''2'', CHR 0x1F]) = Inl ValueError" by code_simp
  have s4: "int_of_str rt (lit [CHR 0x1C, CHR ''1'', CHR ''2'']) = Inl ValueError" by code_simp
  have s5: "int_of_str rt (lit ''-5'') = Inr (- 5)" by code_simp
  have s6: "int_of_str rt (lit ''+7'') = Inr 7" by code_simp
  have s7: "int_of_str rt (lit ''1_000'') = Inr 1000" by code_simp
  have s8: "int_of_str rt (lit ''1__0'') = Inl ValueError" by code_simp
  have s9: "int_of_str rt (lit ''_1'') = Inl ValueError" by code_simp
  have s10: "int_of_str rt (lit ''- 1'') = Inl ValueError" by code_simp
  have s11: "int_of_str rt (lit ''3.7'') = Inl ValueError" by code_simp
  have s12: "int_of_str rt (lit ''many'') = Inl ValueError" by code_simp
  have s13: "int_of_str rt [] = Inl ValueError" by code_simp
  have f1: "int_of_float (FFin False 7 (- 1)) = Inr 3" by code_simp
  have f2: "int_of_float (FFin True 7 (- 1)) = Inr (- 3)" by code_simp
  have f3: "int_of_float (FFin False 3 2) = Inr 12" by code_simp
  have f4: "int_of_float FNaN = Inl ValueError" by code_simp
  have f5: "int_of_float (FInf False) = Inl OverflowError" by code_simp
  from 1 2 3 4 5 s1 s2 s3 s4 s5 s6 s7 s8 s9 s10 s11 s12 s13 int_of_str_ones[of rt k]
    f1 f2 f3 f4 f5
  show ?thesis by (intro conjI)
qed

theorem normalize_work_citations_witness:
  "result_field ''citations''
     (normalize_work plain_runtime [(lit ''cited_by_count'', JStr (lit '' 42 ''))] (lit ''A1''))
     = Some (JInt 42) \<and>
   py_int plain_runtime (dget [(lit ''cited_by_count'', JStr (lit '' 42 ''))] (lit ''cited_by_count''))
     = Inr 42 \<and>
   result_field ''citations''
     (normalize_work plain_runtime [(lit ''cited_by_count'', JStr (lit '' 42 ''))] (lit ''A1''))
     = Some (JInt (case int_of_str plain_runtime (lit '' 42 '') of Inl e \<Rightarrow> 0 | Inr i \<Rightarrow> i)) \<and>
   map_of ([] :: pydict) (lit ''cited_by_count'') = None \<and>
   py_int plain_runtime (dget [] (lit ''cited_by_count'')) = Inl TypeError \<and>
   result_field ''citations'' (normalize_work plain_runtime [] (lit ''A1'')) = Some (JInt 0) \<and>
   dget [(lit ''cited_by_count'', JInt 7)] (lit ''cited_by_count'') = JInt 7 \<and>
   result_field ''citations''
     (normalize_work plain_runtime [(lit ''cited_by_count'', JInt 7)] (lit ''A1'')) = Some (JInt 7)"
proof -
  define w where "w = [(lit ''cited_by_count'', JStr (lit '' 42 ''))]"
  define w7 where "w7 = [(lit ''cited_by_count'', JInt 7)]"
  define p where "p = (\<lambda>c.
     [(lit ''id'', JNull), (lit ''title'', JStr (lit ''Untitled'')), (lit ''year'', JNull),
      (lit ''venue'', JStr em_dash), (lit ''citations'', JInt c), (lit ''doi'', JNull),
      (lit ''url'', JStr (lit ''#'')), (lit ''hal_url'', JNull), (lit ''type'', JStr em_dash),
      (lit ''is_oa'', JBool False), (lit ''oa_status'', JStr (lit ''unknown'')),
      (lit ''fwci'', JNull), (lit ''citation_norm_percentile'', JNull),
      (lit ''topics'', JList []), (lit ''keywords'', JList []), (lit ''coauthors'', JList []),
      (lit ''source'', JStr (lit ''OpenAlex''))])"
  have run: "normalize_work plain_runtime w (lit ''A1'') = Inr (p 42)"
    unfolding p_def w_def by code_simp
  have run0: "normalize_work plain_runtime [] (lit ''A1'') = Inr (p 0)"
    unfolding p_def by code_simp
  have run7: "normalize_work plain_runtime w7 (lit ''A1'') = Inr (p 7)"
    unfolding p_def w7_def by code_simp
  have x: "dget w (lit ''cited_by_count'') = JStr (lit '' 42 '')"
    unfolding w_def by code_simp
  have i: "py_int plain_runtime (dget w (lit ''cited_by_count'')) = Inr 42"
    unfolding w_def by code_simp
  have m0: "map_of ([] :: pydict) (lit ''cited_by_count'') = None" by simp
  have i0: "py_int plain_runtime (dget [] (lit ''cited_by_count'')) = Inl TypeError"
    by code_simp
  have x7: "dget w7 (lit ''cited_by_count'') = JInt 7"
    unfolding w7_def by code_simp
  note r = normalize_work_citations[OF run]
  note r0 = normalize_work_citations[OF run0]
  note r7 = normalize_work_citations[OF run7]
  from r[THEN conjunct2, THEN conjunct2, THEN conjunct2, THEN conjunct1] i
  have a: "dget (p 42) (lit ''citations'') = JInt 42" by simp
  from r[THEN conjunct1]
  have b: "dget (p 42) (lit ''citations'') =
             JInt (case int_of_str plain_runtime (lit '' 42 '') of Inl e \<Rightarrow> 0 | Inr i \<Rightarrow> i)"
    unfolding x by simp
  from r0[THEN conjunct2, THEN conjunct1] m0
  have c: "dget (p 0) (lit ''citations'') = JInt 0" by simp
  from r0[THEN conjunct2, THEN conjunct2, THEN conjunct2, THEN conjunct2, THEN conjunct1] i0
  have c': "dget (p 0) (lit ''citations'') = JInt 0" by simp
  from r7[THEN conjunct2, THEN conjunct2, THEN conjunct1] x7
  have d: "dget (p 7) (lit ''citations'') = JInt 7" by simp
  from a b c c' d i i0 m0 x7 run run0 run7 show ?thesis
    unfolding w_def w7_def by (simp add: result_field_def)
qed

text \<open>A raw count of -5 gives a citations field of -5: the field is not always
  non-negative.\<close>

theorem normalize_work_citations_negative:
  "result_field ''citations''
     (normalize_work plain_runtime [(lit ''cited_by_count'', JInt (- 5))] (lit ''A1''))
     = Some (JInt (- 5))"
  by code_simp

text \<open>
  Claim C2. The three functions are not total on malformed records. A topics entry that
  is \<^verbatim>\<open>None\<close> and an authorship entry that is a string make \<open>normalize_work\<close> raise
  \<^verbatim>\<open>AttributeError\<close>; a citation count that is not numeric, in a group of two
  records, makes \<open>dedupe_works\<close> raise \<^verbatim>\<open>ValueError\<close>, where \<open>normalize_work\<close>
  turns the same count into 0.
\<close>

theorem malformed_fields_raise:
  "normalize_work rt [(lit ''topics'', JList [JNull])] aid = Inl AttributeError \<and>
   normalize_work rt [(lit ''authorships'', JList [JStr (lit ''Ada'')])] aid = Inl AttributeError \<and>
   dedupe_works rt [[(lit ''doi'', JStr (lit ''10.1/x'')), (lit ''cited_by_count'', JStr (lit ''many''))],
                    [(lit ''doi'', JStr (lit ''10.1/x''))]] = Inl ValueError \<and>
   result_field ''citations''
     (normalize_work rt
        [(lit ''doi'', JStr (lit ''10.1/x'')), (lit ''cited_by_count'', JStr (lit ''many''))] aid)
     = Some (JInt 0)"
  by code_simp

subsection \<open>The author identifier\<close>

lemma upper_char_not_Nil: "upper_char rt c \<noteq> []"
  by (simp add: upper_char_def split: list.splits)

lemma py_upper_Nil_iff: "py_upper rt s = [] \<longleftrightarrow> s = []"
  by (cases s) (simp_all add: py_upper_def upper_char_not_Nil)

lemma normalize_author_id_bare:
  "normalize_author_id rt raw =
     (if bare_author_id rt raw = [] then Inl ValueError
      else if startswith (py_upper rt (bare_author_id rt raw)) (lit ''A'')
        then Inr (py_upper rt (bare_author_id rt raw))
      else Inr (lit ''A'' @ dropWhile (\<lambda>c. c = 65) (py_upper rt (bare_author_id rt raw))))"
  by (simp add: normalize_author_id_def bare_author_id_def Let_def py_upper_Nil_iff)

lemma normalize_author_id_valid:
  assumes "normalize_author_id rt raw = Inr aid"
  shows "aid \<noteq> [] \<and> hd aid = 65"
proof -
  let ?r = "py_upper rt (bare_author_id rt raw)"
  from assms have ne: "bare_author_id rt raw \<noteq> []"
    by (auto simp: normalize_author_id_bare split: if_splits)
  show ?thesis
  proof (cases "startswith ?r (lit ''A'')")
    case True
    with assms ne have "aid = ?r" by (simp add: normalize_author_id_bare)
    moreover from True have "?r \<noteq> [] \<and> hd ?r = 65"
      by (cases ?r) (auto simp: startswith_def lit_def)
    ultimately show ?thesis by simp
  next
    case False
    with assms ne have "aid = lit ''A'' @ dropWhile (\<lambda>c. c = 65) ?r"
      by (simp add: normalize_author_id_bare)
    then show ?thesis by (simp add: lit_def)
  qed
qed

lemma normalize_author_id_returns:
  "bare_author_id rt raw \<noteq> [] \<Longrightarrow> \<exists>aid. normalize_author_id rt raw = Inr aid"
  by (simp add: normalize_author_id_bare)

lemma normalize_default_author_id:
  "normalize_author_id rt (Some (lit ''A5042578790'')) = Inr (lit ''A5042578790'')"
  by code_simp

text \<open>
  Claim C9, as amended. \<open>normalize_author_id\<close> raises \<^verbatim>\<open>ValueError\<close> when the
  identifier is \<^verbatim>\<open>None\<close> or is empty after trimming and removal of the prefix
  \<^verbatim>\<open>https://openalex.org/\<close>; otherwise it returns the trimmed identifier in upper case,
  with an \<^verbatim>\<open>A\<close> put in front when it does not start with one, which is a non-empty
  identifier that starts with \<^verbatim>\<open>A\<close>. \<^verbatim>\<open>main\<close> with such an empty identifier in its
  environment variable ends with that exception, whatever the fetcher would return, and
  so before the fetch and the write; with a non-empty one it goes on to the fetch and the
  report. With the variable unset \<^verbatim>\<open>main\<close> does not end with an exception of
  \<open>normalize_author_id\<close>: it goes on to the fetch and the report with the identifier
  \<^verbatim>\<open>A5042578790\<close> written in the script. A report always carries a non-empty
  identifier that \<open>normalize_author_id\<close> returned. An identifier that consists of a
  no-break space is empty after trimming where the interpreter counts that character as
  white space.
\<close>

theorem author_id_required:
  "(bare_author_id rt raw = [] \<longrightarrow> normalize_author_id rt raw = Inl ValueError) \<and>
   (bare_author_id rt raw \<noteq> [] \<longrightarrow>
      normalize_author_id rt raw =
        Inr (if startswith (py_upper rt (bare_author_id rt raw)) (lit ''A'')
             then py_upper rt (bare_author_id rt raw)
             else lit ''A'' @ py_upper rt (bare_author_id rt raw)) \<and>
      (\<exists>aid. normalize_author_id rt raw = Inr aid \<and> aid \<noteq> [] \<and> hd aid = 65)) \<and>
   normalize_author_id rt None = Inl ValueError \<and>
   normalize_author_id rt (Some []) = Inl ValueError \<and>
   normalize_author_id rt (Some (lit ''   '')) = Inl ValueError \<and>
   normalize_author_id rt (Some (lit '' https://openalex.org/ '')) = Inl ValueError \<and>
   (uni_space rt 160 \<longrightarrow> normalize_author_id rt (Some [160]) = Inl ValueError) \<and>
   normalize_author_id rt (Some (lit ''https://openalex.org/a5042578790''))
     = Inr (lit ''A5042578790'') \<and>
   normalize_author_id rt (Some (lit '' 5042578790 '')) = Inr (lit ''A5042578790'') \<and>
   (bare_author_id rt (Some v) = [] \<longrightarrow> main rt (Some v) fetch now = Inl ValueError) \<and>
   (bare_author_id rt (Some v) \<noteq> [] \<longrightarrow>
      (\<exists>aid. normalize_author_id rt (Some v) = Inr aid \<and>
         main rt (Some v) fetch now = ebind (fetch aid) (\<lambda>works. build_report rt aid works now))) \<and>
   main rt None fetch now
     = ebind (fetch (lit ''A5042578790''))
         (\<lambda>works. build_report rt (lit ''A5042578790'') works now) \<and>
   (main rt env fetch now = Inr report \<longrightarrow>
      (\<exists>aid. dget report (lit ''author_openalex_id'') = JStr aid \<and> aid \<noteq> [] \<and> hd aid = 65 \<and>
         normalize_author_id rt (Some (case env of None \<Rightarrow> lit ''A5042578790'' | Some v \<Rightarrow> v))
           = Inr aid))"
proof (intro conjI impI)
  show "normalize_author_id rt raw = Inl ValueError" if "bare_author_id rt raw = []"
    using that by (simp add: normalize_author_id_bare)
  show "normalize_author_id rt raw =
        Inr (if startswith (py_upper rt (bare_author_id rt raw)) (lit ''A'')
             then py_upper rt (bare_author_id rt raw)
             else lit ''A'' @ py_upper rt (bare_author_id rt raw))"
    if ne: "bare_author_id rt raw \<noteq> []"
  proof -
    let ?r = "py_upper rt (bare_author_id rt raw)"
    have "dropWhile (\<lambda>c. c = 65) ?r = ?r" if "\<not> startswith ?r (lit ''A'')"
      using that by (cases ?r) (auto simp: startswith_def lit_def)
    with ne show ?thesis by (simp add: normalize_author_id_bare)
  qed
  show "\<exists>aid. normalize_author_id rt raw = Inr aid \<and> aid \<noteq> [] \<and> hd aid = 65"
    if "bare_author_id rt raw \<noteq> []"
  proof -
    from normalize_author_id_returns[OF that] obtain aid where
      a: "normalize_author_id rt raw = Inr aid"
      by blast
    with normalize_author_id_valid[OF a] show ?thesis by blast
  qed
  show "normalize_author_id rt None = Inl ValueError" by code_simp
  show "normalize_author_id rt (Some []) = Inl ValueError" by code_simp
  show "normalize_author_id rt (Some (lit ''   '')) = Inl ValueError" by code_simp
  show "normalize_author_id rt (Some (lit '' https://openalex.org/ '')) = Inl ValueError"
    by code_simp
  show "normalize_author_id rt (Some [160]) = Inl ValueError" if "uni_space rt 160"
    using that
    by (simp add: normalize_author_id_def py_strip_def py_lstrip_def py_rstrip_def is_space_def
        ascii_char_def py_upper_def)
  show "normalize_author_id rt (Some (lit ''https://openalex.org/a5042578790''))
     = Inr (lit ''A5042578790'')"
    by code_simp
  show "normalize_author_id rt (Some (lit '' 5042578790 '')) = Inr (lit ''A5042578790'')"
    by code_simp
  show "main rt (Some v) fetch now = Inl ValueError" if "bare_author_id rt (Some v) = []"
    using that by (simp add: main_def ebind_def normalize_author_id_bare)
  show "\<exists>aid. normalize_author_id rt (Some v) = Inr aid \<and>
         main rt (Some v) fetch now = ebind (fetch aid) (\<lambda>works. build_report rt aid works now)"
    if "bare_author_id rt (Some v) \<noteq> []"
  proof -
    from normalize_author_id_returns[OF that] obtain aid where
      a: "normalize_author_id rt (Some v) = Inr aid"
      by blast
    then have "main rt (Some v) fetch now
                 = ebind (fetch aid) (\<lambda>works. build_report rt aid works now)"
      by (simp add: main_def ebind_def)
    with a show ?thesis by blast
  qed
  show "main rt None fetch now
     = ebind (fetch (lit ''A5042578790''))
         (\<lambda>works. build_report rt (lit ''A5042578790'') works now)"
    by (simp add: main_def normalize_default_author_id) (simp add: ebind_def)
  show "\<exists>aid. dget report (lit ''author_openalex_id'') = JStr aid \<and> aid \<noteq> [] \<and> hd aid = 65 \<and>
         normalize_author_id rt (Some (case env of None \<Rightarrow> lit ''A5042578790'' | Some v \<Rightarrow> v))
           = Inr aid"
    if run: "main rt env fetch now = Inr report"
  proof -
    let ?raw = "case env of None \<Rightarrow> lit ''A5042578790'' | Some v \<Rightarrow> v"
    from run obtain aid works where a: "normalize_author_id rt (Some ?raw) = Inr aid"
      and "fetch aid = Inr works" and r: "build_report rt aid works now = Inr report"
      by (auto simp: main_def ebind_def Let_def split: sum.splits)
    from r have "dget report (lit ''author_openalex_id'') = JStr aid"
      by (auto simp: build_report_def ebind_def dget_def lit_def split: sum.splits)
    with a normalize_author_id_valid[OF a] show ?thesis by blast
  qed
qed

theorem author_id_required_witness:
  "bare_author_id plain_runtime (Some (lit '' '')) = [] \<and>
   normalize_author_id plain_runtime (Some (lit '' '')) = Inl ValueError \<and>
   main plain_runtime (Some (lit '' '')) (\<lambda>aid. Inr []) (lit ''now'') = Inl ValueError \<and>
   bare_author_id plain_runtime (Some (lit ''https://openalex.org/a5042578790'')) \<noteq> [] \<and>
   (\<exists>aid. normalize_author_id plain_runtime (Some (lit ''https://openalex.org/a5042578790''))
            = Inr aid \<and>
      aid \<noteq> [] \<and> hd aid = 65) \<and>
   (\<exists>aid. normalize_author_id plain_runtime (Some (lit ''https://openalex.org/a5042578790''))
            = Inr aid \<and>
      main plain_runtime (Some (lit ''https://openalex.org/a5042578790'')) (\<lambda>aid. Inr [])
          (lit ''now'')
        = ebind (Inr []) (\<lambda>works. build_report plain_runtime aid works (lit ''now''))) \<and>
   (\<exists>aid. result_field ''author_openalex_id''
            (main plain_runtime (Some (lit ''https://openalex.org/a5042578790'')) (\<lambda>aid. Inr [])
               (lit ''now''))
            = Some (JStr aid) \<and>
      aid \<noteq> [] \<and> hd aid = 65) \<and>
   uni_space (plain_runtime\<lparr>uni_space := (\<lambda>c. c = 160)\<rparr>) 160 \<and>
   normalize_author_id (plain_runtime\<lparr>uni_space := (\<lambda>c. c = 160)\<rparr>) (Some [160])
     = Inl ValueError"
proof -
  let ?v = "lit ''https://openalex.org/a5042578790''"
  let ?f = "\<lambda>aid :: pystr. Inr [] :: error + pydict list"
  let ?rt = "plain_runtime\<lparr>uni_space := (\<lambda>c. c = 160)\<rparr>"
  define report where "report =
     [(lit ''updated_at'', JStr (lit ''now'')),
      (lit ''author_openalex_id'', JStr (lit ''A5042578790'')),
      (lit ''papers_tracked'', JInt 0),
      (lit ''total_citations'', JInt 0),
      (lit ''citations_by_year'', JList []),
      (lit ''works'', JList [])]"
  have e: "bare_author_id plain_runtime (Some (lit '' '')) = []" by code_simp
  have n: "bare_author_id plain_runtime (Some ?v) \<noteq> []" by code_simp
  have run: "main plain_runtime (Some ?v) ?f (lit ''now'') = Inr report"
    unfolding report_def by code_simp
  have u: "uni_space ?rt 160" by simp
  note r1 = author_id_required[where rt = plain_runtime and raw = "Some (lit '' '')"
      and v = "lit '' ''" and fetch = ?f and now = "lit ''now''"]
  note r2 = author_id_required[where rt = plain_runtime and raw = "Some ?v" and v = ?v
      and fetch = ?f and now = "lit ''now''" and env = "Some ?v" and report = report]
  note r3 = author_id_required[where rt = ?rt]
  from r1 e have 0: "normalize_author_id plain_runtime (Some (lit '' '')) = Inl ValueError"
    by blast
  from r1 e have 1: "main plain_runtime (Some (lit '' '')) ?f (lit ''now'') = Inl ValueError"
    by blast
  from r2 n have 2: "\<exists>aid. normalize_author_id plain_runtime (Some ?v) = Inr aid \<and>
      aid \<noteq> [] \<and> hd aid = 65"
    by blast
  from r2 n have 3: "\<exists>aid. normalize_author_id plain_runtime (Some ?v) = Inr aid \<and>
      main plain_runtime (Some ?v) ?f (lit ''now'')
        = ebind (Inr []) (\<lambda>works. build_report plain_runtime aid works (lit ''now''))"
    by blast
  from r2 run have "\<exists>aid. dget report (lit ''author_openalex_id'') = JStr aid \<and>
      aid \<noteq> [] \<and> hd aid = 65"
    by blast
  with run have 4: "\<exists>aid. result_field ''author_openalex_id''
            (main plain_runtime (Some ?v) ?f (lit ''now'')) = Some (JStr aid) \<and>
      aid \<noteq> [] \<and> hd aid = 65"
    by (simp add: result_field_def)
  from r3 u have 5: "normalize_author_id ?rt (Some [160]) = Inl ValueError"
    by blast
  from e 0 1 n 2 3 4 u 5 show ?thesis by (intro conjI)
qed

text \<open>With the environment variable unset and a fetcher that finds no work, \<^verbatim>\<open>main\<close>
  does not end with an exception: it writes a report for the identifier
  \<^verbatim>\<open>A5042578790\<close>.\<close>

theorem missing_author_id_runs:
  "main plain_runtime None (\<lambda>aid. Inr []) (lit ''now'') =
     Inr [(lit ''updated_at'', JStr (lit ''now'')),
          (lit ''author_openalex_id'', JStr (lit ''A5042578790'')),
          (lit ''papers_tracked'', JInt 0),
          (lit ''total_citations'', JInt 0),
          (lit ''citations_by_year'', JList []),
          (lit ''works'', JList [])]"
  by code_simp

subsection \<open>Aggregation\<close>

lemma typed_paper_citations:
  "typed_paper p \<Longrightarrow> py_int rt (py_or (dget p (lit ''citations'')) (JInt 0)) = Inr (citations_or_zero p)"
  by (auto simp: typed_paper_def citations_or_zero_def py_or_def truthy_def py_int_def
           split: json.splits)

lemma by_year_loop_typed:
  "\<forall>p \<in> set papers. typed_paper p \<Longrightarrow>
   by_year_loop rt papers acc
     = Inr (foldl (\<lambda>a yc. by_year_add (JInt (fst yc)) (snd yc) a) acc (year_pairs papers))"
proof (induction papers arbitrary: acc)
  case Nil
  show ?case by (simp add: year_pairs_def)
next
  case (Cons p ps)
  then have tp: "typed_paper p" and rest: "\<forall>p \<in> set ps. typed_paper p" by auto
  have yp: "year_pairs (p # ps) =
      (case dget p (lit ''year'') of JInt y \<Rightarrow> [(y, citations_or_zero p)] | _ \<Rightarrow> []) @ year_pairs ps"
    by (simp add: year_pairs_def)
  from tp consider y where "dget p (lit ''year'') = JInt y" | "dget p (lit ''year'') = JNull"
    by (auto simp: typed_paper_def split: json.splits)
  then show ?case
  proof cases
    case 1
    then show ?thesis
      using Cons.IH[OF rest] typed_paper_citations[OF tp]
      by (simp add: yp is_int_def Let_def)
  next
    case 2
    then show ?thesis
      using Cons.IH[OF rest] by (simp add: yp is_int_def Let_def)
  qed
qed

lemma insort_key_map:
  "insort_key f (g x) (map g xs) = map g (insort_key (\<lambda>a. f (g a)) x xs)"
  by (induction xs) auto

lemma sort_key_map: "sort_key f (map g xs) = map g (sort_key (\<lambda>a. f (g a)) xs)"
  by (induction xs) (auto simp: insort_key_map)

lemma by_year_add_map:
  "distinct K \<Longrightarrow>
   by_year_add (JInt y) c (map (\<lambda>k. (JInt k, g k)) K) =
     (if y \<in> set K then map (\<lambda>k. (JInt k, if k = y then g k + c else g k)) K
      else map (\<lambda>k. (JInt k, g k)) K @ [(JInt y, c)])"
  by (induction K) (auto simp: int_val_def)

lemma year_total_absent: "y \<notin> fst ` set pairs \<Longrightarrow> year_total y pairs = 0"
  by (induction pairs) (auto simp: year_total_def)

lemma year_total_snoc:
  "year_total y (pairs @ [(y', c)]) = (if y' = y then year_total y pairs + c else year_total y pairs)"
  by (simp add: year_total_def)

lemma by_year_closed:
  "foldl (\<lambda>a yc. by_year_add (JInt (fst yc)) (snd yc) a) [] pairs
     = map (\<lambda>y. (JInt y, year_total y pairs)) (first_occurrences (map fst pairs))"
proof (induction pairs rule: rev_induct)
  case Nil
  show ?case by (simp add: first_occurrences_def)
next
  case (snoc yc pairs)
  obtain y c where yc: "yc = (y, c)" by (cases yc)
  have d: "distinct (first_occurrences (map fst pairs))" by simp
  show ?case
    unfolding yc
    by (auto simp: snoc.IH by_year_add_map[OF d] first_occurrences_snoc year_total_snoc
          year_total_absent)
qed

lemma fst_year_pairs: "map fst (year_pairs papers) = paper_years papers"
  by (induction papers) (auto simp: year_pairs_def paper_years_def split: json.splits)

lemma year_total_pairs: "year_total y (year_pairs papers) = citations_in y papers"
  by (induction papers)
     (auto simp: year_total_def year_pairs_def citations_in_def split: json.splits)

lemma sort_first_occurrences: "sort (first_occurrences ys) = sorted_list_of_set (set ys)"
proof -
  have "sorted_list_of_set (set (first_occurrences ys)) = sort (remdups (first_occurrences ys))"
    by (rule sorted_list_of_set_sort_remdups)
  then show ?thesis by (simp add: distinct_remdups_id)
qed

lemma build_citations_by_year_typed:
  assumes "\<forall>p \<in> set papers. typed_paper p"
  shows "build_citations_by_year rt papers =
     Inr (map (\<lambda>y. [(lit ''year'', JInt y), (lit ''citations'', JInt (citations_in y papers))])
            (sorted_list_of_set (set (paper_years papers))))"
proof -
  let ?K = "first_occurrences (paper_years papers)"
  have loop: "by_year_loop rt papers [] = Inr (map (\<lambda>y. (JInt y, citations_in y papers)) ?K)"
    by (simp add: by_year_loop_typed[OF assms] by_year_closed fst_year_pairs year_total_pairs)
  have "sort_key (\<lambda>e. int_val (fst e)) (map (\<lambda>y. (JInt y, citations_in y papers)) ?K)
          = map (\<lambda>y. (JInt y, citations_in y papers)) (sort ?K)"
    by (simp add: sort_key_map int_val_def)
  then show ?thesis
    by (simp add: build_citations_by_year_def loop sort_first_occurrences comp_def)
qed

lemma total_citations_typed:
  assumes "\<forall>p \<in> set papers. typed_paper p"
  shows "total_citations rt papers = Inr (sum_list (map citations_or_zero papers))"
proof -
  have "emap (\<lambda>p. py_int rt (py_or (dget p (lit ''citations'')) (JInt 0))) papers
          = Inr (map citations_or_zero papers)"
    using assms by (induction papers) (auto simp: typed_paper_citations)
  then show ?thesis by (simp add: total_citations_def)
qed

lemma normalize_work_typed:
  assumes "normalize_work rt w aid = Inr p"
  shows "typed_paper p"
  using normalize_work_fields[OF assms]
  by (auto simp: typed_paper_def opt_int_def split: option.splits)

text \<open>
  Claim C5. For normalised works (\<open>normalize_work\<close> returns only such), the total is
  the sum of the citation counts, a missing count being 0, and
  \<open>build_citations_by_year\<close> returns one pair per distinct year of the works that
  have a year, in ascending order of the years, with the sum of the citations of the works
  of that year; works without a year are left out. Years 2020, 2020, 2021 with 5, 3 and 7
  citations give the pairs (2020, 8), (2021, 7) and the total 15.
\<close>

theorem aggregate_citations:
  "((\<forall>p \<in> set papers. typed_paper p) \<longrightarrow>
      total_citations rt papers = Inr (sum_list (map citations_or_zero papers)) \<and>
      build_citations_by_year rt papers =
        Inr (map (\<lambda>y. [(lit ''year'', JInt y), (lit ''citations'', JInt (citations_in y papers))])
               (sorted_list_of_set (set (paper_years papers))))) \<and>
   (normalize_work rt w aid = Inr p \<longrightarrow> typed_paper p) \<and>
   total_citations rt example_papers = Inr 15 \<and>
   build_citations_by_year rt example_papers =
     Inr [[(lit ''year'', JInt 2020), (lit ''citations'', JInt 8)],
          [(lit ''year'', JInt 2021), (lit ''citations'', JInt 7)]]"
proof (intro conjI impI)
  assume t: "\<forall>p \<in> set papers. typed_paper p"
  show "total_citations rt papers = Inr (sum_list (map citations_or_zero papers))"
    by (rule total_citations_typed[OF t])
  show "build_citations_by_year rt papers =
        Inr (map (\<lambda>y. [(lit ''year'', JInt y), (lit ''citations'', JInt (citations_in y papers))])
               (sorted_list_of_set (set (paper_years papers))))"
    by (rule build_citations_by_year_typed[OF t])
next
  assume "normalize_work rt w aid = Inr p"
  then show "typed_paper p" by (rule normalize_work_typed)
next
  show "total_citations rt example_papers = Inr 15" by code_simp
  show "build_citations_by_year rt example_papers =
     Inr [[(lit ''year'', JInt 2020), (lit ''citations'', JInt 8)],
          [(lit ''year'', JInt 2021), (lit ''citations'', JInt 7)]]"
    by code_simp
qed

theorem aggregate_citations_witness:
  "list_all typed_paper example_undated_papers \<and>
   total_citations plain_runtime example_undated_papers = Inr 12 \<and>
   build_citations_by_year plain_runtime example_undated_papers =
     Inr [[(lit ''year'', JInt 2020), (lit ''citations'', JInt 3)],
          [(lit ''year'', JInt 2021), (lit ''citations'', JInt 7)]]"
proof -
  have t: "list_all typed_paper example_undated_papers" by code_simp
  then have t': "\<forall>p \<in> set example_undated_papers. typed_paper p" by (simp add: list_all_iff)
  have s: "sum_list (map citations_or_zero example_undated_papers) = 12" by code_simp
  have m: "map (\<lambda>y. [(lit ''year'', JInt y), (lit ''citations'', JInt (citations_in y example_undated_papers))])
               (sorted_list_of_set (set (paper_years example_undated_papers)))
         = [[(lit ''year'', JInt 2020), (lit ''citations'', JInt 3)],
            [(lit ''year'', JInt 2021), (lit ''citations'', JInt 7)]]"
    by code_simp
  from aggregate_citations[of example_undated_papers plain_runtime] t'
  have "total_citations plain_runtime example_undated_papers
          = Inr (sum_list (map citations_or_zero example_undated_papers))"
    and "build_citations_by_year plain_runtime example_undated_papers =
        Inr (map (\<lambda>y. [(lit ''year'', JInt y), (lit ''citations'', JInt (citations_in y example_undated_papers))])
               (sorted_list_of_set (set (paper_years example_undated_papers))))"
    by blast+
  with s m t show ?thesis by simp
qed

subsection \<open>The order of the report\<close>

lemma typed_paper_key:
  "typed_paper p \<Longrightarrow> int_pair_key (paper_sort_key p) = Some (paper_rank p)"
  by (auto simp: typed_paper_def int_pair_key_def paper_sort_key_def paper_rank_def
        year_or_zero_def citations_or_zero_def py_or_def truthy_def int_key_def
      split: json.splits)

lemma those_map_Some: "(\<forall>x \<in> set xs. f x = Some (g x)) \<Longrightarrow> those (map f xs) = Some (map g xs)"
  by (induction xs) auto

lemma mset_sorted_desc: "mset (sorted_desc kxs) = mset kxs"
  by (simp add: sorted_desc_def)

lemma set_sorted_desc: "set (sorted_desc kxs) = set kxs"
  by (simp add: sorted_desc_def)

lemma sorted_desc_keys: "sorted (rev (map fst (sorted_desc kxs)))"
  by (simp add: sorted_desc_def rev_map[symmetric])

lemma zip_map_self: "zip (map f xs) xs = map (\<lambda>x. (f x, x)) xs"
  by (induction xs) auto

lemma sort_papers_typed:
  assumes t: "\<forall>p \<in> set papers. typed_paper p"
  shows "\<exists>out. sort_papers rt papers = Inr out \<and> mset out = mset papers \<and>
           sorted (rev (map paper_rank out))"
proof (cases "length papers \<le> 1")
  case True
  then have "sorted (rev (map paper_rank papers))"
    by (cases papers) auto
  with True show ?thesis by (simp add: sort_papers_def)
next
  case False
  let ?kxs = "map (\<lambda>p. (paper_rank p, p)) papers"
  let ?out = "map snd (sorted_desc ?kxs)"
  have th: "those (map (\<lambda>p. int_pair_key (paper_sort_key p)) papers) = Some (map paper_rank papers)"
    by (rule those_map_Some) (use t typed_paper_key in auto)
  have run: "sort_papers rt papers = Inr ?out"
    using False by (simp add: sort_papers_def th zip_map_self)
  have sk: "map snd ?kxs = papers" by (induction papers) auto
  have "mset ?out = image_mset snd (mset (sorted_desc ?kxs))" by (simp only: mset_map)
  also have "\<dots> = image_mset snd (mset ?kxs)" by (simp only: mset_sorted_desc)
  also have "\<dots> = mset (map snd ?kxs)" by (simp only: mset_map)
  finally have ms: "mset ?out = mset papers" by (simp only: sk)
  have "fst e = paper_rank (snd e)" if "e \<in> set (sorted_desc ?kxs)" for e
  proof -
    from that have "e \<in> set ?kxs" by (simp only: set_sorted_desc)
    then show ?thesis by auto
  qed
  then have "map fst (sorted_desc ?kxs) = map paper_rank ?out"
    by (simp only: map_map comp_def map_eq_conv) blast
  with sorted_desc_keys[of ?kxs] have "sorted (rev (map paper_rank ?out))" by simp
  with run ms show ?thesis by blast
qed

lemma paper_rank_le:
  "paper_rank q \<le> paper_rank p \<longleftrightarrow>
     year_or_zero q < year_or_zero p \<or>
     (year_or_zero q = year_or_zero p \<and> citations_or_zero q \<le> citations_or_zero p)"
  by (auto simp: paper_rank_def less_eq_prod_def)

lemma sorted_rev_ranks:
  assumes "sorted (rev (map paper_rank out))" and "i < j" and "j < length out"
  shows "paper_rank (out ! j) \<le> paper_rank (out ! i)"
proof -
  have "map paper_rank out ! j \<le> map paper_rank out ! i"
    using assms sorted_rev_iff_nth_mono[of "map paper_rank out"] by auto
  with assms show ?thesis by simp
qed

lemma emap_normalized_typed:
  assumes "emap (\<lambda>w. normalize_work rt w aid) ws = Inr ps"
  shows "\<forall>p \<in> set ps. typed_paper p"
proof
  fix p assume "p \<in> set ps"
  then have "Inr p \<in> set (map Inr ps :: (error + pydict) list)" by simp
  with assms have "Inr p \<in> set (map (\<lambda>w. normalize_work rt w aid) ws)"
    by (simp only: emap_Inr_iff)
  then obtain w where "normalize_work rt w aid = Inr p" by auto
  then show "typed_paper p" by (rule normalize_work_typed)
qed

lemma build_report_works:
  assumes "build_report rt aid works now = Inr report"
  shows "\<exists>deduped normalized papers.
           dedupe_works rt works = Inr deduped \<and>
           emap (\<lambda>w. normalize_work rt w aid) deduped = Inr normalized \<and>
           sort_papers rt normalized = Inr papers \<and>
           dget report (lit ''works'') = JList (map JDict papers)"
  using assms
  by (auto simp: build_report_def ebind_def dget_def lit_def split: sum.splits)

lemma main_build_report:
  assumes "main rt env fetch now = Inr report"
  shows "\<exists>aid works. fetch aid = Inr works \<and> build_report rt aid works now = Inr report"
  using assms
  by (auto simp: main_def ebind_def Let_def split: sum.splits)

text \<open>
  Claim C7, as amended. The works of a report that \<^verbatim>\<open>main\<close> produces are the
  normalised winners of the deduplication, rearranged so that of two works the earlier has
  the later year, a missing year counting as 0, or the same year and at least as many
  citations. A work without a year therefore comes after every work whose year is
  positive; it does not come after a work whose year is negative.
\<close>

theorem report_works_order:
  "main rt env fetch now = Inr report \<Longrightarrow>
     \<exists>aid works deduped normalized papers.
       fetch aid = Inr works \<and>
       dedupe_works rt works = Inr deduped \<and>
       emap (\<lambda>w. normalize_work rt w aid) deduped = Inr normalized \<and>
       mset papers = mset normalized \<and>
       dget report (lit ''works'') = JList (map JDict papers) \<and>
       (\<forall>i j. i < j \<and> j < length papers \<longrightarrow>
          year_or_zero (papers ! j) < year_or_zero (papers ! i) \<or>
          (year_or_zero (papers ! j) = year_or_zero (papers ! i) \<and>
           citations_or_zero (papers ! j) \<le> citations_or_zero (papers ! i))) \<and>
       (\<forall>i j. i < length papers \<and> j < length papers \<and> dget (papers ! i) (lit ''year'') = JNull \<and>
          0 < year_or_zero (papers ! j) \<longrightarrow> j < i)"
proof -
  assume run: "main rt env fetch now = Inr report"
  from main_build_report[OF run] obtain aid works where
    f: "fetch aid = Inr works" and b: "build_report rt aid works now = Inr report" by blast
  from build_report_works[OF b] obtain deduped normalized papers where
    d: "dedupe_works rt works = Inr deduped" and
    n: "emap (\<lambda>w. normalize_work rt w aid) deduped = Inr normalized" and
    s: "sort_papers rt normalized = Inr papers" and
    w: "dget report (lit ''works'') = JList (map JDict papers)" by blast
  from sort_papers_typed[OF emap_normalized_typed[OF n], of rt] s have
    ms: "mset papers = mset normalized" and srt: "sorted (rev (map paper_rank papers))" by auto
  have ord: "year_or_zero (papers ! j) < year_or_zero (papers ! i) \<or>
          (year_or_zero (papers ! j) = year_or_zero (papers ! i) \<and>
           citations_or_zero (papers ! j) \<le> citations_or_zero (papers ! i))"
    if "i < j" "j < length papers" for i j
    using sorted_rev_ranks[OF srt that] by (simp only: paper_rank_le)
  have last: "j < i"
    if "i < length papers" "j < length papers" "dget (papers ! i) (lit ''year'') = JNull"
       "0 < year_or_zero (papers ! j)" for i j
  proof (rule ccontr)
    assume "\<not> j < i"
    have z: "year_or_zero (papers ! i) = 0" using that(3) by (simp add: year_or_zero_def)
    with that(4) have "i \<noteq> j" by auto
    with \<open>\<not> j < i\<close> have "i < j" by simp
    from ord[OF this that(2)] z that(4) show False by simp
  qed
  from f d n ms w ord last show ?thesis by blast
qed

theorem report_works_order_witness:
  "result_field ''papers_tracked''
     (main plain_runtime None (\<lambda>aid. Inr example_raw_works) (lit ''now'')) = Some (JInt 4) \<and>
   map (\<lambda>x. case x of JDict p \<Rightarrow> dget p (lit ''title'') | _ \<Rightarrow> JNull)
     (case result_field ''works'' (main plain_runtime None (\<lambda>aid. Inr example_raw_works) (lit ''now'')) of
        Some (JList xs) \<Rightarrow> xs | _ \<Rightarrow> [])
     = [JStr (lit ''Delta''), JStr (lit ''Gamma''), JStr (lit ''Alpha''), JStr (lit ''Beta'')] \<and>
   (\<exists>papers.
      result_field ''works'' (main plain_runtime None (\<lambda>aid. Inr example_raw_works) (lit ''now''))
        = Some (JList (map JDict papers)) \<and>
      (\<forall>i j. i < j \<and> j < length papers \<longrightarrow>
          year_or_zero (papers ! j) < year_or_zero (papers ! i) \<or>
          (year_or_zero (papers ! j) = year_or_zero (papers ! i) \<and>
           citations_or_zero (papers ! j) \<le> citations_or_zero (papers ! i))))"
proof -
  let ?m = "main plain_runtime None (\<lambda>aid. Inr example_raw_works) (lit ''now'')"
  have pt: "result_field ''papers_tracked'' ?m = Some (JInt 4)" by code_simp
  have ts: "map (\<lambda>x. case x of JDict p \<Rightarrow> dget p (lit ''title'') | _ \<Rightarrow> JNull)
     (case result_field ''works'' ?m of Some (JList xs) \<Rightarrow> xs | _ \<Rightarrow> [])
     = [JStr (lit ''Delta''), JStr (lit ''Gamma''), JStr (lit ''Alpha''), JStr (lit ''Beta'')]" by code_simp
  from pt obtain report where run: "?m = Inr report"
    by (cases ?m) (simp_all add: result_field_def)
  from report_works_order[OF run] obtain papers where
    w: "dget report (lit ''works'') = JList (map JDict papers)" and
    ord: "\<forall>i j. i < j \<and> j < length papers \<longrightarrow>
          year_or_zero (papers ! j) < year_or_zero (papers ! i) \<or>
          (year_or_zero (papers ! j) = year_or_zero (papers ! i) \<and>
           citations_or_zero (papers ! j) \<le> citations_or_zero (papers ! i))"
    by blast
  from w run have "result_field ''works'' ?m = Some (JList (map JDict papers))"
    by (simp add: result_field_def)
  with ord pt ts show ?thesis by blast
qed

text \<open>A work without a year is not always last: it comes before a work of the year -1.\<close>

theorem undated_work_not_last:
  "map (\<lambda>x. case x of JDict p \<Rightarrow> (dget p (lit ''title''), dget p (lit ''year'')) | _ \<Rightarrow> (JNull, JNull))
     (case result_field ''works'' (main plain_runtime None (\<lambda>aid. Inr example_early_works) (lit ''now'')) of
        Some (JList xs) \<Rightarrow> xs | _ \<Rightarrow> [])
     = [(JStr (lit ''Undated''), JNull), (JStr (lit ''Early''), JInt (- 1))]"
  by code_simp

subsection \<open>Identity keys\<close>

lemma py_strip_Nil [simp]: "py_strip rt [] = []"
  by (simp add: py_strip_def py_rstrip_def py_lstrip_def)

lemma strip_doi_prefixes_Nil [simp]: "strip_doi_prefixes [] = []"
  by (simp add: strip_doi_prefixes_def)

lemma py_lower_Nil [simp]: "py_lower rt [] = []"
  by (simp add: py_lower_def ascii_def)


lemma is_space_to_upper [simp]: "is_space rt (to_upper c) = is_space rt c"
  by (auto simp: is_space_def to_upper_def is_lower_def ascii_char_def)

lemma is_space_to_lower [simp]: "is_space rt (to_lower c) = is_space rt c"
  by (auto simp: is_space_def to_lower_def is_upper_def ascii_char_def)

lemma to_lower_to_upper [simp]: "to_lower (to_upper c) = to_lower c"
  by (auto simp: to_lower_def to_upper_def is_upper_def is_lower_def)

lemma to_lower_idem [simp]: "to_lower (to_lower c) = to_lower c"
  by (auto simp: to_lower_def is_upper_def)

lemma ascii_char_to_upper [simp]: "ascii_char (to_upper c) = ascii_char c"
  by (auto simp: to_upper_def is_lower_def ascii_char_def)

lemma ascii_char_to_lower [simp]: "ascii_char (to_lower c) = ascii_char c"
  by (auto simp: to_lower_def is_upper_def ascii_char_def)

lemma ascii_map_upper [simp]: "ascii (map to_upper s) = ascii s"
  by (simp add: ascii_def list_all_iff)

lemma ascii_map_lower [simp]: "ascii (map to_lower s) = ascii s"
  by (simp add: ascii_def list_all_iff)

lemma ascii_append [simp]: "ascii (a @ b) = (ascii a \<and> ascii b)"
  by (simp add: ascii_def)












































end
